theory Spec2Isabelle
  imports Main "HOL-Library.Char_ord"
begin

text \<open>
  The pattern notation of the word solver: the classes \<open>BlankSpace\<close>, \<open>UnknownWord\<close> and
  \<open>DictionaryNode\<close> of \<open>word_objects.py\<close>, the parsers of \<open>parsers.py\<close> and
  \<open>create_dict_trie\<close> of \<open>word_utils.py\<close>, as functions of HOL, and what holds of them.
\<close>

chapter \<open>The model\<close>

section \<open>Errors\<close>

text \<open>
  Every exception the modelled code can raise is a value. \<open>ParseError\<close> is the
  \<open>ValueError\<close> raised by \<open>_raise_parse_error(class_name, unknown, msg, index)\<close>; it keeps
  the four arguments apart. \<open>ValueError\<close> is any other \<open>ValueError\<close> with its message,
  \<open>IndexError\<close> and \<open>KeyError\<close> are Python's own, and \<open>NoneSpace\<close> marks a pattern whose
  list of spaces would hold \<open>None\<close> (the record of a pattern holds classes only).
\<close>

datatype error =
    ParseError string string string int
  | ValueError string
  | IndexError
  | KeyError
  | NoneSpace

section \<open>Characters\<close>

text \<open>
  A Python string is a list of characters; a character of the model is one of the 256 code
  points below 256. \<open>ascii_lowercase\<close> is \<open>string.ascii_lowercase\<close>.
\<close>

definition ascii_lowercase :: string where
  "ascii_lowercase = ''abcdefghijklmnopqrstuvwxyz''"

definition all_character_set :: "char set" where
  "all_character_set = set ascii_lowercase"

section \<open>BlankSpace\<close>

text \<open>
  The class \<open>BlankSpace\<close> of \<open>word_objects.py\<close>. The bounds are Python integers; the
  value \<open>-1\<close> of \<open>max_blanks\<close> stands for "no upper bound". The field \<open>_negated\<close> is
  called \<open>negated\<close>, as its property is.
\<close>

record BlankSpace =
  possible_characters :: "char set"
  min_blanks :: int
  max_blanks :: int
  negated :: bool
  bracketed :: bool

text \<open>
  The argument \<open>chars\<close> of the constructor is a string or a collection of characters.
  The two are kept apart because the constructor compares \<open>chars\<close> with the empty string,
  which no collection equals.
\<close>

datatype chars_arg = Str string | Collection "char set"

fun chars_of :: "chars_arg \<Rightarrow> char set" where
  "chars_of (Str s) = set s"
| "chars_of (Collection A) = A"

definition remove_chars :: "BlankSpace \<Rightarrow> char set \<Rightarrow> BlankSpace" where
  "remove_chars self s = self\<lparr>possible_characters := possible_characters self - s\<rparr>"

definition add_chars :: "BlankSpace \<Rightarrow> char set \<Rightarrow> BlankSpace" where
  "add_chars self s = self\<lparr>possible_characters := possible_characters self \<union> s\<rparr>"

definition append_chars :: "BlankSpace \<Rightarrow> char set \<Rightarrow> BlankSpace" where
  "append_chars self s = (if negated self then remove_chars self s else add_chars self s)"

definition BlankSpace_init :: "bool \<Rightarrow> bool \<Rightarrow> int \<Rightarrow> int \<Rightarrow> chars_arg \<Rightarrow> BlankSpace" where
  "BlankSpace_init bracketed0 negated0 min_blanks0 max_blanks0 chars =
     append_chars
       \<lparr>possible_characters =
          (if (\<not> bracketed0 \<and> chars = Str []) \<or> negated0 then all_character_set else {}),
        min_blanks = min_blanks0,
        max_blanks = max_blanks0,
        negated = negated0,
        bracketed = bracketed0\<rparr>
       (chars_of chars)"

definition is_empty :: "BlankSpace \<Rightarrow> bool" where
  "is_empty self \<longleftrightarrow> max_blanks self = 0"

text \<open>
  \<open>apply_filter\<close> changes the object in place; the model returns the changed object.
  The filter characters arrive as a string or a collection and are made a set first, so
  the model takes the set. \<open>len(possible_characters)\<close> is \<open>card\<close>.
\<close>

definition apply_filter :: "BlankSpace \<Rightarrow> char set \<Rightarrow> bool \<Rightarrow> BlankSpace" where
  "apply_filter self filter_chars hard =
     (if (hard \<and> (bracketed self \<or> card (possible_characters self) > 1))
         \<or> (\<not> hard \<and> \<not> bracketed self \<and> card (possible_characters self) > 1)
      then remove_chars self (all_character_set - filter_chars)
      else self)"

definition with_filter :: "BlankSpace \<Rightarrow> char set \<Rightarrow> bool \<Rightarrow> BlankSpace" where
  "with_filter self filter_chars hard = apply_filter self filter_chars hard"

text \<open>
  \<open>clone_minus(sub_min = 1, sub_max = None)\<close>: a call that leaves an argument out passes
  the default, \<open>1\<close> and \<open>None\<close>.
\<close>

definition clone_minus :: "BlankSpace \<Rightarrow> int \<Rightarrow> int option \<Rightarrow> error + BlankSpace" where
  "clone_minus self sub_min sub_max_opt =
     (if is_empty self
      then Inl (ValueError ''Cannot create a new BlankSpace with less spaces than none'')
      else
        let sub_max = (case sub_max_opt of None \<Rightarrow> sub_min | Some m \<Rightarrow> m);
            new_min = max 0 (min_blanks self - sub_max);
            new_max = (if max_blanks self = -1 then -1 else max_blanks self - sub_min);
            clone = BlankSpace_init (bracketed self) (negated self) new_min new_max (Str [])
        in Inr (clone\<lparr>possible_characters := possible_characters self\<rparr>))"

section \<open>UnknownWord\<close>

text \<open>
  The class \<open>UnknownWord\<close>. The field \<open>filter\<close> is called \<open>filter_w\<close>. The constructor
  copies its arguments (values of the model are never shared) and raises when the filter is
  not bracketed.
\<close>

record UnknownWord =
  spaces :: "BlankSpace list"
  filter_w :: "BlankSpace option"
  hard_filter :: bool

definition UnknownWord_init ::
  "BlankSpace list \<Rightarrow> BlankSpace option \<Rightarrow> bool \<Rightarrow> error + UnknownWord" where
  "UnknownWord_init spaces0 filter0 hard_filter0 =
     (case filter0 of
        Some f \<Rightarrow>
          if \<not> bracketed f then Inl (ValueError ''A filter must be bracketed'')
          else Inr \<lparr>spaces = spaces0, filter_w = filter0, hard_filter = hard_filter0\<rparr>
      | None \<Rightarrow> Inr \<lparr>spaces = spaces0, filter_w = filter0, hard_filter = hard_filter0\<rparr>)"

definition has_filter :: "UnknownWord \<Rightarrow> bool" where
  "has_filter self \<longleftrightarrow> filter_w self \<noteq> None"

text \<open>The loop of \<open>_calc_length_bounds\<close>, one space at a time.\<close>

fun calc_loop :: "BlankSpace list \<Rightarrow> int \<Rightarrow> int \<Rightarrow> int \<times> int" where
  "calc_loop [] calc_min calc_max = (calc_min, calc_max)"
| "calc_loop (space # rest) calc_min calc_max =
     calc_loop rest (calc_min + min_blanks space)
       (if calc_max = -1 \<or> max_blanks space = -1 then -1 else calc_max + max_blanks space)"

definition calc_length_bounds :: "UnknownWord \<Rightarrow> int \<times> int" where
  "calc_length_bounds self = calc_loop (spaces self) 0 0"

definition is_possible :: "UnknownWord \<Rightarrow> bool" where
  "is_possible self =
     (case calc_length_bounds self of (calc_min, calc_max) \<Rightarrow>
        (case filter_w self of
           None \<Rightarrow> True
         | Some f \<Rightarrow>
             (min_blanks f \<le> calc_min \<and> calc_min \<le> max_blanks f)
             \<or> (min_blanks f \<le> calc_max \<and> calc_max \<le> max_blanks f)))"

definition get_effective_spaces :: "UnknownWord \<Rightarrow> BlankSpace list" where
  "get_effective_spaces self =
     (case filter_w self of
        None \<Rightarrow> spaces self
      | Some f \<Rightarrow> map (\<lambda>s. with_filter s (possible_characters f) (hard_filter self)) (spaces self))"

section \<open>The trie and the search\<close>

text \<open>
  The class \<open>DictionaryNode\<close>: a node holds its flag and its dictionary of children, in
  insertion order. The reference to the parent serves only to print the path from the root
  (\<open>__repr__\<close>); the model carries that path beside the node where it is needed, in a
  \<open>node_ref\<close>.
\<close>

datatype DictionaryNode = DictionaryNode (is_word: bool) (children: "(char \<times> DictionaryNode) list")

type_synonym node_ref = "string \<times> DictionaryNode"

text \<open>
  \<open>has_child(c)\<close> followed by \<open>self[c]\<close> for a path \<open>c\<close> of one character, as
  \<open>get_possible_children\<close> and \<open>create_dict_trie\<close> use them: \<open>c in self.children\<close> and
  \<open>self.children.get(c)\<close>. The result is \<open>None\<close> exactly when \<open>has_child(c)\<close> is false.
\<close>

definition child_at :: "DictionaryNode \<Rightarrow> char \<Rightarrow> DictionaryNode option" where
  "child_at self c = map_of (children self) c"

lemma child_at_size [termination_simp]:
  "child_at self c = Some child \<Longrightarrow> size child < size self"
proof -
  have "map_of cs c = Some child \<Longrightarrow> size child < Suc (size_list (size_prod (\<lambda>_. 0) size) cs)" for cs
    by (induction cs) (auto split: if_splits)
  then show "child_at self c = Some child \<Longrightarrow> size child < size self"
    by (cases self) (auto simp add: child_at_def)
qed

text \<open>
  The results of a sequence of generators, one after the other; the first exception ends
  the sequence.
\<close>

fun yield_from :: "(error + 'a list) list \<Rightarrow> error + 'a list" where
  "yield_from [] = Inr []"
| "yield_from (r # rs) =
     (case r of
        Inl e \<Rightarrow> Inl e
      | Inr xs \<Rightarrow> (case yield_from rs of Inl e \<Rightarrow> Inl e | Inr ys \<Rightarrow> Inr (xs @ ys)))"

text \<open>
  \<open>get_possible_children\<close>. A Python set is visited in an order the language does not fix:
  the model takes the order as the argument \<open>iter\<close>, which lists the members of a set.
\<close>

function get_possible_children ::
  "(char set \<Rightarrow> char list) \<Rightarrow> node_ref \<Rightarrow> BlankSpace \<Rightarrow> error + node_ref list" where
  "get_possible_children iter (path, self) space =
     (let first = (if min_blanks space = 0 then [(path, self)] else [])
      in if max_blanks space = 0 then Inr first
         else
           (case yield_from
              (map (\<lambda>c. case child_at self c of
                         None \<Rightarrow> Inr []
                       | Some child \<Rightarrow>
                           (case clone_minus space 1 None of
                              Inl e \<Rightarrow> Inl e
                            | Inr space' \<Rightarrow> get_possible_children iter (path @ [c], child) space'))
                 (iter (possible_characters space)))
            of Inl e \<Rightarrow> Inl e
             | Inr rest \<Rightarrow> Inr (first @ rest)))"
  by pat_completeness auto

termination
  by (relation "measure (\<lambda>(iter, node, space). size (snd node))") (auto simp add: child_at_size)

declare get_possible_children.simps [simp del]

lemma child_in_size [termination_simp]:
  "(c, child) \<in> set (children self) \<Longrightarrow> size child < size self"
proof -
  have "(c, child) \<in> set cs \<Longrightarrow> size child < Suc (size_list (size_prod (\<lambda>_. 0) size) cs)" for cs
    by (induction cs) auto
  then show "(c, child) \<in> set (children self) \<Longrightarrow> size child < size self"
    by (cases self) auto
qed

text \<open>
  The property \<open>max_layers_below\<close>, with its loop over \<open>children.values()\<close>; the lemma
  before it gives its termination, as \<open>child_at_size\<close> does for the search.
\<close>

fun max_layers_below :: "DictionaryNode \<Rightarrow> int" where
  "max_layers_below self =
     fold (\<lambda>c max_layers. max max_layers (max_layers_below c)) (map snd (children self)) (-1) + 1"

declare max_layers_below.simps [simp del]

text \<open>
  The depth of the calls of \<open>get_possible_children\<close> below one call: 0 when the call makes
  none, and one more than the deepest call it makes otherwise. It follows the recursion of
  \<open>get_possible_children\<close> call by call.
\<close>

function call_depth :: "(char set \<Rightarrow> char list) \<Rightarrow> DictionaryNode \<Rightarrow> BlankSpace \<Rightarrow> nat" where
  "call_depth iter self space =
     (if max_blanks space = 0 then 0
      else fold max
             (map (\<lambda>c. case child_at self c of
                        None \<Rightarrow> 0
                      | Some child \<Rightarrow>
                          (case clone_minus space 1 None of
                             Inl e \<Rightarrow> 0
                           | Inr space' \<Rightarrow> Suc (call_depth iter child space')))
                (iter (possible_characters space)))
             0)"
  by pat_completeness auto

termination
  by (relation "measure (\<lambda>(iter, node, space). size node)") (auto simp add: child_at_size)

declare call_depth.simps [simp del]

section \<open>The parser\<close>

text \<open>
  \<open>str.lower()\<close>, character by character, on the code points below 256: the letters A to Z
  and the capital letters from 192 to 222 (but not the sign at 215) move up by 32.
\<close>

definition lower_char :: "char \<Rightarrow> char" where
  "lower_char c =
     (let n = (of_char c :: nat)
      in if (65 \<le> n \<and> n \<le> 90) \<or> (192 \<le> n \<and> n \<le> 222 \<and> n \<noteq> 215) then char_of (n + 32) else c)"

definition lower :: "string \<Rightarrow> string" where
  "lower s = map lower_char s"

text \<open>
  The comparisons \<open>'0' <= c <= '9'\<close> and \<open>'a' <= c <= 'z'\<close> on a string of one character
  compare code points.
\<close>

definition is_digit :: "char \<Rightarrow> bool" where
  "is_digit c \<longleftrightarrow> CHR ''0'' \<le> c \<and> c \<le> CHR ''9''"

definition is_letter :: "char \<Rightarrow> bool" where
  "is_letter c \<longleftrightarrow> CHR ''a'' \<le> c \<and> c \<le> CHR ''z''"

text \<open>
  \<open>int(s)\<close>: white space is stripped at both ends, a sign may lead, and the digits may be
  separated by single underscores; anything else raises \<open>ValueError\<close>, which is \<open>None\<close>
  here. The white space that \<open>int\<close> strips is the tab, the line feed, the vertical tab, the
  form feed, the carriage return and the space, and of the code points from 127 on those
  that \<open>str.isspace\<close> holds of (133 and 160); the separators 28 to 31 are not stripped.
  \<open>digit_value\<close> is \<open>int(c)\<close> of one digit. \<open>int_literal\<close> is the value the text
  denotes; \<open>py_int\<close> adds the interpreter's limit on a conversion between text and
  integer, \<open>sys.int_max_str_digits\<close>, by default 4300 digits: a text with more digits raises
  \<open>ValueError\<close> as well.
\<close>

definition int_max_str_digits :: nat where
  "int_max_str_digits = 4300"

definition digit_value :: "char \<Rightarrow> int" where
  "digit_value c = int (of_char c) - 48"

definition is_space :: "char \<Rightarrow> bool" where
  "is_space c \<longleftrightarrow> (of_char c :: nat) \<in> {9, 10, 11, 12, 13, 32, 133, 160}"

fun digits_rest :: "string \<Rightarrow> int \<Rightarrow> int option" where
  "digits_rest [] acc = Some acc"
| "digits_rest [c] acc = (if is_digit c then Some (acc * 10 + digit_value c) else None)"
| "digits_rest (c # d # ds) acc =
     (if is_digit c then digits_rest (d # ds) (acc * 10 + digit_value c)
      else if c = CHR ''_'' \<and> is_digit d then digits_rest ds (acc * 10 + digit_value d)
      else None)"

definition strip :: "string \<Rightarrow> string" where
  "strip s = rev (dropWhile is_space (rev (dropWhile is_space s)))"

definition int_literal :: "string \<Rightarrow> int option" where
  "int_literal s =
     (case strip s of
        [] \<Rightarrow> None
      | c # cs \<Rightarrow>
          if c = CHR ''-'' then
            (case cs of [] \<Rightarrow> None
             | d # ds \<Rightarrow> if is_digit d then map_option uminus (digits_rest ds (digit_value d)) else None)
          else if c = CHR ''+'' then
            (case cs of [] \<Rightarrow> None
             | d # ds \<Rightarrow> if is_digit d then digits_rest ds (digit_value d) else None)
          else if is_digit c then digits_rest cs (digit_value c)
          else None)"

definition py_int :: "string \<Rightarrow> int option" where
  "py_int s =
     (case int_literal s of
        None \<Rightarrow> None
      | Some v \<Rightarrow> if int_max_str_digits < length (filter is_digit s) then None else Some v)"

text \<open>
  \<open>str(i)\<close> of an integer: its decimal digits, after a minus sign when negative
  (\<open>decimal\<close>); when there are more digits than \<open>int_max_str_digits\<close>, \<open>str\<close> raises
  \<open>ValueError\<close>.
\<close>

function digits_of :: "nat \<Rightarrow> string" where
  "digits_of n = (if n < 10 then [char_of (48 + n)] else digits_of (n div 10) @ [char_of (48 + n mod 10)])"
  by pat_completeness auto

termination
  by (relation "measure id") auto

declare digits_of.simps [simp del]

definition decimal :: "int \<Rightarrow> string" where
  "decimal i = (if i < 0 then CHR ''-'' # digits_of (nat (- i)) else digits_of (nat i))"

definition str_int :: "int \<Rightarrow> error + string" where
  "str_int i =
     (if int_max_str_digits < length (digits_of (nat \<bar>i\<bar>))
      then Inl (ValueError ''Exceeds the limit (4300 digits) for integer string conversion; use sys.set_int_max_str_digits() to increase the limit'')
      else Inr (decimal i))"

text \<open>
  \<open>s.find(c)\<close> for a string \<open>c\<close> of one character: the first index of \<open>c\<close>, or \<open>-1\<close>.
  \<open>slice xs lo hi\<close> is \<open>xs[lo:hi]\<close>, with \<open>None\<close> for a bound left out, and
  \<open>getitem_str s i\<close> is \<open>s[i]\<close>; both count a negative index from the end.
\<close>

fun find_str :: "string \<Rightarrow> char \<Rightarrow> int" where
  "find_str [] c = -1"
| "find_str (x # xs) c =
     (if x = c then 0 else (let i = find_str xs c in if i = -1 then -1 else i + 1))"

definition slice_index :: "int \<Rightarrow> int \<Rightarrow> nat" where
  "slice_index n i = nat (if i < 0 then max 0 (n + i) else min i n)"

definition slice :: "'a list \<Rightarrow> int option \<Rightarrow> int option \<Rightarrow> 'a list" where
  "slice xs lo hi =
     (let n = int (length xs);
          a = (case lo of None \<Rightarrow> 0 | Some i \<Rightarrow> slice_index n i);
          b = (case hi of None \<Rightarrow> length xs | Some j \<Rightarrow> slice_index n j)
      in take (b - a) (drop a xs))"

definition getitem_str :: "string \<Rightarrow> int \<Rightarrow> error + char" where
  "getitem_str s i =
     (let n = int (length s)
      in if 0 \<le> i \<and> i < n then Inr (s ! nat i)
         else if - n \<le> i \<and> i < 0 then Inr (s ! nat (n + i))
         else Inl IndexError)"

text \<open>The dictionary \<open>_BRACKET_MATCHES\<close>.\<close>

definition BRACKET_MATCHES :: "char \<rightharpoonup> char" where
  "BRACKET_MATCHES = [CHR ''['' \<mapsto> CHR '']'', CHR ''{'' \<mapsto> CHR ''}'', CHR ''('' \<mapsto> CHR '')'']"

text \<open>
  The two \<open>while\<close> loops of \<open>parse_blank_space\<close>. Each is entered with \<open>index\<close> inside
  \<open>unknown\<close>, and runs over \<open>unknown[index:]\<close>, passed as the first list argument: the empty
  list is \<open>index == len(unknown)\<close>, otherwise its head is \<open>c = unknown[index]\<close>.
  \<open>max_loop\<close> (lines 55 to 61) reads the digits of the upper bound; \<open>letters_loop\<close>
  (lines 78 to 85) appends letters to \<open>res\<close>, returns \<open>res\<close> at the end of the text and
  raises at any other character.
\<close>

fun max_loop :: "string \<Rightarrow> int \<Rightarrow> nat \<Rightarrow> int \<times> nat" where
  "max_loop [] maxlen index = (maxlen, index)"
| "max_loop (c # rest) maxlen index =
     (if is_digit c then max_loop rest (maxlen * 10 + digit_value c) (index + 1)
      else (maxlen, index))"

fun letters_loop :: "string \<Rightarrow> string \<Rightarrow> BlankSpace \<Rightarrow> nat \<Rightarrow> error + BlankSpace" where
  "letters_loop string [] res index = Inr res"
| "letters_loop string (c # rest) res index =
     (if is_letter c then letters_loop string rest (append_chars res {c}) (index + 1)
      else Inl (ParseError ''BlankSpace'' string (''Unexpected character: '' @ [c]) (int index + 1)))"

text \<open>
  \<open>parse_blank_space\<close>, in the order of its lines. \<open>parse_min\<close> is lines 36 to 46 (the
  lower bound; it returns \<open>minlen\<close>, \<open>index\<close> and \<open>c\<close>), \<open>parse_max\<close> lines 47 to 65 (the
  comma and the upper bound), \<open>parse_bounds\<close> lines 29 to 68 with the check of the bounds,
  \<open>parse_chars\<close> lines 70 to 89, and \<open>parse_blank_space\<close> the whole function. Every
  \<open>unknown[index]\<close> of these lines is read under a test \<open>index < len(unknown)\<close> or at an
  index \<open>find\<close> returned, so it is written \<open>unknown ! index\<close>. The message about the
  bounds prints both of them, first the lower, and \<open>str\<close> can raise.
\<close>

definition parse_min :: "string \<Rightarrow> string \<Rightarrow> error + (int \<times> nat \<times> char)" where
  "parse_min string unknown =
     (let c = unknown ! 0
      in if is_digit c then
           (let index = find_str unknown CHR '',''
            in if index = -1
               then Inl (ParseError ''BlankSpace'' string ''Missing comma in length bounds''
                           (int (length unknown) + 1))
               else
                 (case py_int (slice unknown None (Some index)) of
                    None \<Rightarrow>
                      Inl (ParseError ''BlankSpace'' string
                             (''Could not parse a minimum bound from ''
                                @ slice unknown None (Some index))
                             (index + 1))
                  | Some minlen \<Rightarrow> Inr (minlen, nat index, unknown ! nat index)))
         else Inr (1, 0, c))"

definition parse_max :: "string \<Rightarrow> int \<Rightarrow> int \<Rightarrow> nat \<Rightarrow> char \<Rightarrow> int \<times> int \<times> nat" where
  "parse_max unknown minlen maxlen index c =
     (if c = CHR '','' then
        (let minlen1 = (if index = 0 then 0 else minlen);
             index1 = index + 1
         in if index1 < length unknown then
              (if is_digit (unknown ! index1) then
                 (case max_loop (drop index1 unknown) 0 index1 of
                    (maxlen1, index2) \<Rightarrow> (minlen1, maxlen1, index2))
               else (minlen1, -1, index1))
            else (minlen1, -1, index1))
      else (minlen, maxlen, index))"

definition parse_bounds :: "string \<Rightarrow> char \<Rightarrow> string \<Rightarrow> error + (int \<times> int \<times> nat)" where
  "parse_bounds string bracket unknown =
     (if length unknown = 0
      then Inl (ParseError ''BlankSpace'' string ''Missing characters inside bracket'' 1)
      else
        let is_filter = (bracket \<noteq> CHR ''['')
        in case parse_min string unknown of
             Inl e \<Rightarrow> Inl e
           | Inr (minlen0, index0, c) \<Rightarrow>
               (case parse_max unknown minlen0 (if is_filter then -1 else 1) index0 c of
                  (minlen, maxlen, index) \<Rightarrow>
                    if -1 < maxlen \<and> maxlen < minlen
                    then
                      (case str_int minlen of
                         Inl e \<Rightarrow> Inl e
                       | Inr min_str \<Rightarrow>
                           (case str_int maxlen of
                              Inl e \<Rightarrow> Inl e
                            | Inr max_str \<Rightarrow>
                                Inl (ParseError ''BlankSpace'' string
                                       (''Lower bound ('' @ min_str
                                          @ '') cannot be more than upper bound (''
                                          @ max_str @ '')'')
                                       (int index + 1))))
                    else Inr (minlen, maxlen, index)))"

definition parse_chars ::
  "string \<Rightarrow> string \<Rightarrow> int \<Rightarrow> int \<Rightarrow> nat \<Rightarrow> error + BlankSpace option" where
  "parse_chars string unknown minlen maxlen index =
     (if index < length unknown then
        (let negated0 = (unknown ! index \<in> set ''^!'');
             index1 = (if negated0 then index + 1 else index)
         in if index1 < length unknown then
              (case letters_loop string (drop index1 unknown)
                      (BlankSpace_init True negated0 minlen maxlen (Str [])) index1 of
                 Inl e \<Rightarrow> Inl e
               | Inr res \<Rightarrow> Inr (Some res))
            else Inr (Some (BlankSpace_init True negated0 minlen maxlen (Str []))))
      else Inr (Some (BlankSpace_init True False minlen maxlen (Collection all_character_set))))"

definition parse_blank_space :: "string option \<Rightarrow> error + BlankSpace option" where
  "parse_blank_space string0 =
     (case string0 of
        None \<Rightarrow> Inr None
      | Some string \<Rightarrow>
          if length string = 0 then Inr None
          else
            let unknown = lower string
            in if length unknown = 1 then
                 (if unknown = ''_'' then Inr (Some (BlankSpace_init False False 1 1 (Str [])))
                  else if is_letter (hd unknown)
                  then Inr (Some (BlankSpace_init False False 1 1 (Str unknown)))
                  else Inl (ParseError ''BlankSpace'' string
                              ''Single-character BlankSpace must be a letter or underscore'' 0))
               else
                 let bracket = hd unknown
                 in if bracket \<notin> set ''[{(''
                    then Inl (ParseError ''BlankSpace'' string
                                ''Multiple character BlankSpace must start with [, {, or ('' 0)
                    else if BRACKET_MATCHES bracket \<noteq> Some (last unknown)
                    then Inl (ParseError ''BlankSpace'' string
                                ''Last character must match the starting bracket''
                                (int (length unknown) - 1))
                    else
                      (case parse_bounds string bracket (slice unknown (Some 1) (Some (-1))) of
                         Inl e \<Rightarrow> Inl e
                       | Inr (minlen, maxlen, index) \<Rightarrow>
                           parse_chars string (slice unknown (Some 1) (Some (-1)))
                             minlen maxlen index))"

text \<open>
  The \<open>while\<close> loop of \<open>parse_unknown_word\<close>, on its variables \<open>spaces\<close>, \<open>filter\<close>,
  \<open>hard_filter\<close> and \<open>index\<close>. The loop need not end, so its result is an option: \<open>None\<close>
  when it runs forever, \<open>Some\<close> of an exception or of the final variables otherwise. The
  list \<open>spaces\<close> holds what \<open>parse_blank_space\<close> returned, which can be \<open>None\<close>.
\<close>

partial_function (option) word_loop ::
  "string \<Rightarrow> string \<Rightarrow> BlankSpace option list \<Rightarrow> BlankSpace option \<Rightarrow> bool \<Rightarrow> int
     \<Rightarrow> (error + BlankSpace option list \<times> BlankSpace option \<times> bool) option" where
  "word_loop string unknown spaces0 filter0 hard_filter0 index =
     (if index < int (length unknown) then
        (case getitem_str unknown index of
           Inl e \<Rightarrow> Some (Inl e)
         | Inr c \<Rightarrow>
             if c = CHR ''_'' \<or> is_letter c then
               (case parse_blank_space (Some [c]) of
                  Inl e \<Rightarrow> Some (Inl e)
                | Inr space \<Rightarrow>
                    word_loop string unknown (spaces0 @ [space]) filter0 hard_filter0 (index + 1))
             else if c = CHR ''['' \<or> c = CHR ''{'' \<or> c = CHR ''('' then
               (case BRACKET_MATCHES c of
                  None \<Rightarrow> Some (Inl KeyError)
                | Some end_bracket \<Rightarrow>
                    (let end_index = find_str (slice unknown (Some index) None) end_bracket + index
                     in case parse_blank_space (Some (slice unknown (Some index) (Some (end_index + 1)))) of
                          Inl e \<Rightarrow> Some (Inl e)
                        | Inr space \<Rightarrow>
                            if c = CHR ''['' then
                              word_loop string unknown (spaces0 @ [space]) filter0 hard_filter0
                                (end_index + 1)
                            else if end_index \<noteq> int (length unknown) - 1 then
                              Some (Inl (ParseError ''UnknownWord'' string
                                           ''Filter must be at the end of the word'' end_index))
                            else
                              word_loop string unknown spaces0 space (c = CHR ''{'')
                                (end_index + 1)))
             else Some (Inl (ParseError ''UnknownWord'' string
                               (''Unexpected character: '' @ [c]) index)))
      else Some (Inr (spaces0, filter0, hard_filter0)))"

declare word_loop.simps [code]

text \<open>
  \<open>parse_unknown_word\<close>. Its result is \<open>None\<close> when the loop runs forever; otherwise an
  exception, Python's \<open>None\<close> (for no text) or the pattern.
\<close>

definition parse_unknown_word :: "string option \<Rightarrow> (error + UnknownWord option) option" where
  "parse_unknown_word string0 =
     (case string0 of
        None \<Rightarrow> Some (Inr None)
      | Some string \<Rightarrow>
          if length string = 0 then Some (Inr None)
          else
            (case word_loop string (lower string) [] None False 0 of
               None \<Rightarrow> None
             | Some (Inl e) \<Rightarrow> Some (Inl e)
             | Some (Inr (spaces0, filter0, hard_filter0)) \<Rightarrow>
                 (case those spaces0 of
                    None \<Rightarrow> Some (Inl NoneSpace)
                  | Some spaces1 \<Rightarrow>
                      (case UnknownWord_init spaces1 filter0 hard_filter0 of
                         Inl e \<Rightarrow> Some (Inl e)
                       | Inr w \<Rightarrow> Some (Inr (Some w))))))"

section \<open>Building the trie, matching a pattern\<close>

text \<open>
  \<open>create_dict_trie\<close> of \<open>word_utils.py\<close>. \<open>dict_set\<close> is the assignment
  \<open>children[path] = child\<close>: a key that is there keeps its place, a new key goes to the end.
  The code changes the nodes where they stand; the model builds the changed node and puts
  it back into its parent with \<open>set_child\<close>. \<open>add_word\<close> is the body of the loop for one
  cleaned word, started at \<open>current\<close>: the last letter marks a word, the letters before it
  walk down and make the nodes that are missing, and \<open>word[-1]\<close> of an empty word raises.
\<close>

fun dict_set :: "(char \<times> 'v) list \<Rightarrow> char \<Rightarrow> 'v \<Rightarrow> (char \<times> 'v) list" where
  "dict_set [] k v = [(k, v)]"
| "dict_set ((k', v') # rest) k v =
     (if k' = k then (k, v) # rest else (k', v') # dict_set rest k v)"

definition set_child :: "DictionaryNode \<Rightarrow> char \<Rightarrow> DictionaryNode \<Rightarrow> DictionaryNode" where
  "set_child self path child = DictionaryNode (is_word self) (dict_set (children self) path child)"

definition clean_word :: "string \<Rightarrow> string" where
  "clean_word word = filter is_letter (lower word)"

fun add_word :: "DictionaryNode \<Rightarrow> string \<Rightarrow> error + DictionaryNode" where
  "add_word current [] = Inl IndexError"
| "add_word current [last_c] =
     Inr (case child_at current last_c of
            Some child \<Rightarrow> set_child current last_c (DictionaryNode True (children child))
          | None \<Rightarrow> set_child current last_c (DictionaryNode True []))"
| "add_word current (c # rest) =
     (case add_word
             (case child_at current c of Some child \<Rightarrow> child | None \<Rightarrow> DictionaryNode False [])
             rest of
        Inl e \<Rightarrow> Inl e
      | Inr child \<Rightarrow> Inr (set_child current c child))"

fun create_loop :: "DictionaryNode \<Rightarrow> string list \<Rightarrow> error + DictionaryNode" where
  "create_loop root [] = Inr root"
| "create_loop root (word # words) =
     (case add_word root (clean_word word) of
        Inl e \<Rightarrow> Inl e
      | Inr root' \<Rightarrow> create_loop root' words)"

definition create_dict_trie :: "string list \<Rightarrow> error + DictionaryNode" where
  "create_dict_trie words = create_loop (DictionaryNode False []) words"

text \<open>
  What the argument \<open>iter\<close> must do to stand for the visit of a Python set: list every
  member once.
\<close>

definition set_iteration :: "(char set \<Rightarrow> char list) \<Rightarrow> bool" where
  "set_iteration iter \<longleftrightarrow> (\<forall>A. set (iter A) = A \<and> distinct (iter A))"

text \<open>
  Modelled from the spec: the matching of a whole pattern, which no function of the sources
  does. Section 4.4 of the spec composes \<open>get_possible_children\<close> over the effective spaces of
  the pattern in sequence, each node that a space yields being a start for the next space.
\<close>

fun match_units ::
  "(char set \<Rightarrow> char list) \<Rightarrow> node_ref list \<Rightarrow> BlankSpace list \<Rightarrow> error + node_ref list" where
  "match_units iter nodes [] = Inr nodes"
| "match_units iter nodes (unit # units) =
     (case yield_from (map (\<lambda>node. get_possible_children iter node unit) nodes) of
        Inl e \<Rightarrow> Inl e
      | Inr nodes' \<Rightarrow> match_units iter nodes' units)"

text \<open>
  Modelled from the spec: the words a pattern matches below a root, which no function of the
  sources computes. Section 4.4 keeps, of the nodes that satisfy the whole pattern, those
  marked \<open>is_word\<close>; the word of a node is its path from the root.
\<close>

definition match_pattern ::
  "(char set \<Rightarrow> char list) \<Rightarrow> UnknownWord \<Rightarrow> DictionaryNode \<Rightarrow> error + string list" where
  "match_pattern iter pattern root =
     (case match_units iter [([], root)] (get_effective_spaces pattern) of
        Inl e \<Rightarrow> Inl e
      | Inr nodes \<Rightarrow> Inr (map fst (filter (\<lambda>node. is_word (snd node)) nodes)))"

text \<open>
  The example of the spec: the trie that \<open>create_dict_trie\<close> builds from cat, ca, caat
  and cab, and the pattern that \<open>parse_unknown_word\<close> reads from \<open>c[1,2a]t\<close>.
\<close>

abbreviation example_root :: DictionaryNode where
  "example_root \<equiv>
     DictionaryNode False
       [(CHR ''c'',
         DictionaryNode False
           [(CHR ''a'',
             DictionaryNode True
               [(CHR ''t'', DictionaryNode True []),
                (CHR ''a'', DictionaryNode False [(CHR ''t'', DictionaryNode True [])]),
                (CHR ''b'', DictionaryNode True [])])])]"

abbreviation example_pattern :: UnknownWord where
  "example_pattern \<equiv>
     \<lparr>spaces =
        [\<lparr>possible_characters = {CHR ''c''}, min_blanks = 1, max_blanks = 1,
            negated = False, bracketed = False\<rparr>,
         \<lparr>possible_characters = {CHR ''a''}, min_blanks = 1, max_blanks = 2,
            negated = False, bracketed = True\<rparr>,
         \<lparr>possible_characters = {CHR ''t''}, min_blanks = 1, max_blanks = 1,
            negated = False, bracketed = False\<rparr>],
      filter_w = None, hard_filter = False\<rparr>"

section \<open>The text of a class\<close>

text \<open>
  \<open>BlankSpace.__repr__\<close>, the text of a class. \<open>list(possible_characters)[0]\<close> and the
  join of the excluded characters visit a set, in the order \<open>iter\<close>; \<open>sorted\<close> orders
  characters by code point. The bounds are printed with \<open>str\<close>, the lower one first, and
  \<open>str\<close> can raise.
\<close>

definition is_all_chars :: "BlankSpace \<Rightarrow> bool" where
  "is_all_chars self \<longleftrightarrow> possible_characters self = all_character_set"

definition repr :: "(char set \<Rightarrow> char list) \<Rightarrow> BlankSpace \<Rightarrow> error + string" where
  "repr iter self =
     (if \<not> bracketed self \<and> \<not> negated self \<and> card (possible_characters self) = 1
      then Inr [iter (possible_characters self) ! 0]
      else if \<not> bracketed self \<and> \<not> negated self \<and> card (possible_characters self) = 26
      then Inr ''_''
      else
        let char_str =
              (if negated self
               then CHR ''^'' # iter (all_character_set - possible_characters self)
               else if \<not> is_all_chars self then sorted_list_of_set (possible_characters self)
               else ascii_lowercase)
        in if min_blanks self = max_blanks self \<and> max_blanks self = 1
           then Inr (''['' @ char_str @ '']'')
           else
             (case (if min_blanks self = 0 then Inr [] else str_int (min_blanks self)) of
                Inl e \<Rightarrow> Inl e
              | Inr min_str \<Rightarrow>
                  (case (if max_blanks self = -1 then Inr [] else str_int (max_blanks self)) of
                     Inl e \<Rightarrow> Inl e
                   | Inr max_str \<Rightarrow>
                       Inr (''['' @ min_str @ '','' @ max_str
                              @ (if char_str = ascii_lowercase then [] else char_str) @ '']''))))"

text \<open>
  The canonical form of a class, in the words of the spec (section 3, the invariants of a
  quantified class): the minimum is not negative, the maximum is unbounded (\<open>-1\<close>) or not
  below the minimum, and the characters are letters of the alphabet.
\<close>

definition canonical :: "BlankSpace \<Rightarrow> bool" where
  "canonical self \<longleftrightarrow>
     0 \<le> min_blanks self
     \<and> (max_blanks self = -1 \<or> min_blanks self \<le> max_blanks self)
     \<and> possible_characters self \<subseteq> all_character_set"

text \<open>An integer that \<open>str\<close> prints: it has no more digits than the limit.\<close>

definition printable :: "int \<Rightarrow> bool" where
  "printable i \<longleftrightarrow> length (digits_of (nat \<bar>i\<bar>)) \<le> int_max_str_digits"

text \<open>
  The two parts of the text between the brackets, for bounds that are printable: the bounds
  and the characters.
\<close>

definition bounds_text :: "BlankSpace \<Rightarrow> string" where
  "bounds_text self =
     (if min_blanks self = 1 \<and> max_blanks self = 1 then []
      else (if min_blanks self = 0 then [] else decimal (min_blanks self)) @ '',''
           @ (if max_blanks self = -1 then [] else decimal (max_blanks self)))"

definition chars_text :: "(char set \<Rightarrow> char list) \<Rightarrow> BlankSpace \<Rightarrow> string" where
  "chars_text iter self =
     (if negated self then CHR ''^'' # iter (all_character_set - possible_characters self)
      else if possible_characters self \<noteq> all_character_set
      then sorted_list_of_set (possible_characters self)
      else if min_blanks self = 1 \<and> max_blanks self = 1 then ascii_lowercase
      else [])"

chapter \<open>Properties\<close>

section \<open>BlankSpace\<close>

lemma BlankSpace_init_fields:
  "min_blanks (BlankSpace_init b n lo hi cs) = lo"
  "max_blanks (BlankSpace_init b n lo hi cs) = hi"
  "negated (BlankSpace_init b n lo hi cs) = n"
  "bracketed (BlankSpace_init b n lo hi cs) = b"
  by (simp_all add: BlankSpace_init_def append_chars_def remove_chars_def add_chars_def)

lemma BlankSpace_init_chars:
  "possible_characters (BlankSpace_init b n lo hi cs) =
     (if n then all_character_set - chars_of cs
      else if \<not> b \<and> cs = Str [] then all_character_set
      else chars_of cs)"
  by (cases cs) (auto simp add: BlankSpace_init_def append_chars_def remove_chars_def add_chars_def)

text \<open>
  C5. The claim: \<open>clone_minus(3, 6)\<close> on a class with bounds 5 and 10 gives bounds 0 and 4.
  The code subtracts \<open>sub_min\<close> from the maximum, so the new maximum is \<open>10 - 3 = 7\<close>:
  the claim fails on every class with these bounds.
\<close>

theorem C5_clone_minus_3_6_counterexample:
  "map_sum id max_blanks (clone_minus (BlankSpace_init True False 5 10 (Str ''ab'')) 3 (Some 6))
     \<noteq> Inr 4"
  by (simp add: clone_minus_def is_empty_def BlankSpace_init_fields Let_def)

text \<open>
  C5, as amended: \<open>clone_minus(3, 6)\<close> on a class with \<open>min_blanks = 5\<close> and
  \<open>max_blanks = 10\<close> returns a class with \<open>min_blanks = 0\<close> and \<open>max_blanks = 7\<close>.
\<close>

theorem C5_clone_minus_3_6:
  assumes "min_blanks self = 5" and "max_blanks self = 10"
  shows "\<exists>c. clone_minus self 3 (Some 6) = Inr c \<and> min_blanks c = 0 \<and> max_blanks c = 7"
  using assms by (simp add: clone_minus_def is_empty_def BlankSpace_init_fields Let_def)

theorem C5_clone_minus_3_6_witness:
  "min_blanks (BlankSpace_init True False 5 10 (Str ''ab'')) = 5
   \<and> max_blanks (BlankSpace_init True False 5 10 (Str ''ab'')) = 10
   \<and> (\<exists>c. clone_minus (BlankSpace_init True False 5 10 (Str ''ab'')) 3 (Some 6) = Inr c
          \<and> min_blanks c = 0 \<and> max_blanks c = 7)"
  using C5_clone_minus_3_6 [of "BlankSpace_init True False 5 10 (Str ''ab'')"]
  by (simp add: BlankSpace_init_fields)

text \<open>
  C6. For every class with \<open>max_blanks \<noteq> 0\<close> and every \<open>sub_min\<close> and \<open>sub_max\<close> (when
  \<open>sub_max\<close> is left out it is \<open>sub_min\<close>), \<open>clone_minus\<close> returns a class with
  \<open>min_blanks = max(0, min_blanks - sub_max)\<close>, with \<open>max_blanks = -1\<close> (no upper bound) when
  the receiver's is \<open>-1\<close> and \<open>max_blanks - sub_min\<close> otherwise, and with the same characters;
  for every class with \<open>max_blanks = 0\<close> it raises. A class with bounds 3 and 5 reduced by
  \<open>(1, 1)\<close> has bounds 2 and 4.
\<close>

theorem C6_clone_minus:
  "(max_blanks self \<noteq> 0 \<longrightarrow>
      (\<exists>c. clone_minus self sub_min sub_max_opt = Inr c
         \<and> min_blanks c =
             max 0 (min_blanks self - (case sub_max_opt of None \<Rightarrow> sub_min | Some m \<Rightarrow> m))
         \<and> max_blanks c = (if max_blanks self = -1 then -1 else max_blanks self - sub_min)
         \<and> possible_characters c = possible_characters self))
   \<and> (max_blanks self = 0 \<longrightarrow> (\<exists>e. clone_minus self sub_min sub_max_opt = Inl e))
   \<and> (min_blanks self = 3 \<and> max_blanks self = 5 \<longrightarrow>
        (\<exists>c. clone_minus self 1 (Some 1) = Inr c \<and> min_blanks c = 2 \<and> max_blanks c = 4))"
  by (simp add: clone_minus_def is_empty_def BlankSpace_init_fields Let_def)

theorem C6_clone_minus_witness:
  "(\<exists>c. clone_minus (BlankSpace_init True False 3 5 (Str ''ab'')) 1 (Some 1) = Inr c
       \<and> min_blanks c = 2 \<and> max_blanks c = 4 \<and> possible_characters c = {CHR ''a'', CHR ''b''})
   \<and> (\<exists>c. clone_minus (BlankSpace_init True False 2 (-1) (Str ''ab'')) 1 None = Inr c
       \<and> min_blanks c = 1 \<and> max_blanks c = -1)
   \<and> (\<exists>e. clone_minus (BlankSpace_init True False 0 0 (Str ''ab'')) 1 None = Inl e)"
  using C6_clone_minus [of "BlankSpace_init True False 3 5 (Str ''ab'')" 1 "Some 1"]
    C6_clone_minus [of "BlankSpace_init True False 2 (-1) (Str ''ab'')" 1 None]
    C6_clone_minus [of "BlankSpace_init True False 0 0 (Str ''ab'')" 1 None]
  by (auto simp add: BlankSpace_init_fields BlankSpace_init_chars)

text \<open>
  C7. The claim: under its condition \<open>apply_filter\<close> intersects the characters of the class
  with the filter set. The code takes away the letters of the alphabet that the filter does
  not hold, so a character outside the alphabet stays, and the constructor accepts any
  character: the hard filter b leaves the bracketed class made from \<open>a1\<close> with the character
  \<open>1\<close>, where the intersection is empty.
\<close>

theorem C7_apply_filter_counterexample:
  "bracketed (BlankSpace_init True False 1 1 (Str ''a1''))
   \<and> possible_characters (BlankSpace_init True False 1 1 (Str ''a1'')) = {CHR ''a'', CHR ''1''}
   \<and> possible_characters
       (with_filter (BlankSpace_init True False 1 1 (Str ''a1'')) {CHR ''b''} True)
     = {CHR ''1''}
   \<and> possible_characters
       (with_filter (BlankSpace_init True False 1 1 (Str ''a1'')) {CHR ''b''} True)
     \<noteq> possible_characters (BlankSpace_init True False 1 1 (Str ''a1'')) \<inter> {CHR ''b''}"
proof -
  have "CHR ''1'' \<notin> all_character_set" "CHR ''a'' \<in> all_character_set"
    by (simp_all add: all_character_set_def ascii_lowercase_def)
  then show ?thesis
    by (auto simp add: with_filter_def apply_filter_def remove_chars_def BlankSpace_init_fields
        BlankSpace_init_chars)
qed

text \<open>
  C7, as amended. On any class, \<open>apply_filter\<close> takes away from the characters the letters
  of the alphabet that are not in the filter set, exactly when the filter is hard and the
  class is bracketed or allows more than one character, or the filter is soft and the class
  is unbracketed and allows more than one character; otherwise the characters stay. When
  the characters of the class are letters of the alphabet, this is the intersection with
  the filter set. A soft filter leaves a bracketed class with characters a, b as it is; the
  hard filter b, c narrows it to b.
\<close>

theorem C7_apply_filter:
  "possible_characters (apply_filter self filter_chars hard) =
     (if (hard \<and> (bracketed self \<or> card (possible_characters self) > 1))
         \<or> (\<not> hard \<and> \<not> bracketed self \<and> card (possible_characters self) > 1)
      then possible_characters self - (all_character_set - filter_chars)
      else possible_characters self)
   \<and> (possible_characters self \<subseteq> all_character_set \<longrightarrow>
        possible_characters (apply_filter self filter_chars hard) =
          (if (hard \<and> (bracketed self \<or> card (possible_characters self) > 1))
              \<or> (\<not> hard \<and> \<not> bracketed self \<and> card (possible_characters self) > 1)
           then possible_characters self \<inter> filter_chars
           else possible_characters self))
   \<and> (bracketed self \<and> possible_characters self = {CHR ''a'', CHR ''b''} \<longrightarrow>
        possible_characters (apply_filter self filter_chars False) = {CHR ''a'', CHR ''b''}
        \<and> possible_characters (apply_filter self {CHR ''b'', CHR ''c''} True) = {CHR ''b''})"
proof -
  have "CHR ''a'' \<in> all_character_set"
    by (simp add: all_character_set_def ascii_lowercase_def)
  then show ?thesis
    by (auto simp add: apply_filter_def remove_chars_def)
qed

theorem C7_apply_filter_witness:
  "possible_characters (BlankSpace_init True False 1 1 (Str ''ab'')) \<subseteq> all_character_set
   \<and> bracketed (BlankSpace_init True False 1 1 (Str ''ab''))
   \<and> possible_characters (BlankSpace_init True False 1 1 (Str ''ab'')) = {CHR ''a'', CHR ''b''}
   \<and> possible_characters
       (apply_filter (BlankSpace_init True False 1 1 (Str ''ab'')) {CHR ''b'', CHR ''c''} False)
     = {CHR ''a'', CHR ''b''}
   \<and> possible_characters
       (apply_filter (BlankSpace_init True False 1 1 (Str ''ab'')) {CHR ''b'', CHR ''c''} True)
     = {CHR ''b''}
   \<and> possible_characters
       (apply_filter (BlankSpace_init True False 1 1 (Str ''ab'')) {CHR ''b'', CHR ''c''} True)
     = possible_characters (BlankSpace_init True False 1 1 (Str ''ab'')) \<inter> {CHR ''b'', CHR ''c''}"
proof -
  have sub: "possible_characters (BlankSpace_init True False 1 1 (Str ''ab'')) \<subseteq> all_character_set"
    by (simp add: BlankSpace_init_chars all_character_set_def ascii_lowercase_def)
  have chars: "possible_characters (BlankSpace_init True False 1 1 (Str ''ab''))
      = {CHR ''a'', CHR ''b''}"
    by (simp add: BlankSpace_init_chars)
  show ?thesis
    using sub chars
      C7_apply_filter [of "BlankSpace_init True False 1 1 (Str ''ab'')" "{CHR ''b'', CHR ''c''}" False]
      C7_apply_filter [of "BlankSpace_init True False 1 1 (Str ''ab'')" "{CHR ''b'', CHR ''c''}" True]
    by (simp add: BlankSpace_init_fields)
qed

section \<open>UnknownWord\<close>

text \<open>
  C4. The claim: with a filter, \<open>is_possible\<close> holds exactly when the summed minimum or the
  summed maximum lies in the filter's interval, no upper bound of the filter meaning no
  upper limit. The code compares with the stored \<open>-1\<close>: for the pattern written \<open>ab(abc)\<close>
  (letters a and b, soft filter with bounds 1 and \<open>-1\<close>) both sums are 2, which lies in the
  interval from 1 upwards, and \<open>is_possible\<close> is false.
\<close>

theorem C4_is_possible_unbounded_filter:
  "parse_unknown_word (Some ''ab(abc)'') = Some (Inr (Some
       \<lparr>spaces = [BlankSpace_init False False 1 1 (Str ''a''),
                  BlankSpace_init False False 1 1 (Str ''b'')],
        filter_w = Some (BlankSpace_init True False 1 (-1) (Str ''abc'')),
        hard_filter = False\<rparr>))
   \<and> calc_length_bounds
       \<lparr>spaces = [BlankSpace_init False False 1 1 (Str ''a''),
                  BlankSpace_init False False 1 1 (Str ''b'')],
        filter_w = Some (BlankSpace_init True False 1 (-1) (Str ''abc'')),
        hard_filter = False\<rparr> = (2, 2)
   \<and> \<not> is_possible
       \<lparr>spaces = [BlankSpace_init False False 1 1 (Str ''a''),
                  BlankSpace_init False False 1 1 (Str ''b'')],
        filter_w = Some (BlankSpace_init True False 1 (-1) (Str ''abc'')),
        hard_filter = False\<rparr>"
proof -
  have "parse_unknown_word (Some ''ab(abc)'') = Some (Inr (Some
       \<lparr>spaces = [BlankSpace_init False False 1 1 (Str ''a''),
                  BlankSpace_init False False 1 1 (Str ''b'')],
        filter_w = Some (BlankSpace_init True False 1 (-1) (Str ''abc'')),
        hard_filter = False\<rparr>))"
    by code_simp
  then show ?thesis
    by (simp add: is_possible_def calc_length_bounds_def BlankSpace_init_fields)
qed

text \<open>Without a filter \<open>is_possible\<close> holds, as the claim says.\<close>

lemma is_possible_no_filter: "filter_w self = None \<Longrightarrow> is_possible self"
  by (simp add: is_possible_def split: prod.splits)

section \<open>The search in the trie\<close>

lemma yield_from_Inr:
  "(\<And>r. r \<in> set rs \<Longrightarrow> \<exists>xs. r = Inr xs) \<Longrightarrow> \<exists>ys. yield_from rs = Inr ys"
proof (induction rs)
  case Nil
  then show ?case by simp
next
  case (Cons r rs)
  from Cons.prems obtain xs where r: "r = Inr xs" by auto
  from Cons obtain ys where "yield_from rs = Inr ys" by auto
  with r show ?case by simp
qed

lemma clone_minus_Inr:
  "max_blanks space \<noteq> 0 \<Longrightarrow> \<exists>space'. clone_minus space 1 None = Inr space'"
  by (simp add: clone_minus_def is_empty_def Let_def)

lemma clone_minus_max:
  "clone_minus space 1 None = Inr space' \<Longrightarrow>
     max_blanks space' = (if max_blanks space = -1 then -1 else max_blanks space - 1)"
  by (auto simp add: clone_minus_def is_empty_def Let_def BlankSpace_init_fields split: if_splits)

lemma gpc_total: "\<exists>nodes. get_possible_children iter node space = Inr nodes"
proof (induction iter node space rule: get_possible_children.induct)
  case (1 iter path self space)
  show ?case
  proof (cases "max_blanks space = 0")
    case True
    then show ?thesis by (subst get_possible_children.simps) simp
  next
    case False
    let ?step = "\<lambda>c. case child_at self c of
                         None \<Rightarrow> Inr []
                       | Some child \<Rightarrow>
                           (case clone_minus space 1 None of
                              Inl e \<Rightarrow> Inl e
                            | Inr space' \<Rightarrow> get_possible_children iter (path @ [c], child) space')"
    have "\<exists>xs. ?step c = Inr xs" if "c \<in> set (iter (possible_characters space))" for c
    proof (cases "child_at self c")
      case None
      then show ?thesis by simp
    next
      case (Some child)
      from False obtain space' where sp: "clone_minus space 1 None = Inr space'"
        using clone_minus_Inr by blast
      from "1.IH" [OF refl False that Some sp] Some sp show ?thesis by simp
    qed
    then have "\<exists>ys. yield_from (map ?step (iter (possible_characters space))) = Inr ys"
      by (intro yield_from_Inr) auto
    then obtain ys where "yield_from (map ?step (iter (possible_characters space))) = Inr ys" ..
    with False show ?thesis by (subst get_possible_children.simps) (simp add: Let_def)
  qed
qed

lemma fold_max_le: "fold max xs (a::nat) \<le> b \<longleftrightarrow> a \<le> b \<and> (\<forall>x \<in> set xs. x \<le> b)"
  by (induction xs arbitrary: a) auto

lemma call_depth_le_max:
  "0 \<le> max_blanks space \<Longrightarrow> call_depth iter self space \<le> nat (max_blanks space)"
proof (induction iter self space rule: call_depth.induct)
  case (1 iter self space)
  show ?case
  proof (cases "max_blanks space = 0")
    case True
    then show ?thesis by (subst call_depth.simps) simp
  next
    case False
    have "(case child_at self c of
             None \<Rightarrow> 0
           | Some child \<Rightarrow>
               (case clone_minus space 1 None of
                  Inl e \<Rightarrow> 0
                | Inr space' \<Rightarrow> Suc (call_depth iter child space'))) \<le> nat (max_blanks space)"
      if c: "c \<in> set (iter (possible_characters space))" for c
    proof (cases "child_at self c")
      case None
      then show ?thesis by simp
    next
      case (Some child)
      from False obtain space' where sp: "clone_minus space 1 None = Inr space'"
        using clone_minus_Inr by blast
      from clone_minus_max [OF sp] "1.prems" False
      have m: "max_blanks space' = max_blanks space - 1" "0 \<le> max_blanks space'" by auto
      from "1.IH" [OF False c Some sp m(2)] m "1.prems" False
      have "Suc (call_depth iter child space') \<le> nat (max_blanks space)" by simp
      with Some sp show ?thesis by simp
    qed
    with False show ?thesis by (subst call_depth.simps) (simp add: fold_max_le)
  qed
qed

lemma fold_max_layers_ge:
  "a \<le> fold (\<lambda>c m. max m (f c)) xs (a::int)"
  "x \<in> set xs \<Longrightarrow> f x \<le> fold (\<lambda>c m. max m (f c)) xs (a::int)"
proof -
  have "a \<le> fold (\<lambda>c m. max m (f c)) xs a \<and> (\<forall>x \<in> set xs. f x \<le> fold (\<lambda>c m. max m (f c)) xs a)"
  proof (induction xs arbitrary: a)
    case Nil
    then show ?case by simp
  next
    case (Cons y ys)
    from Cons [of "max a (f y)"] show ?case by auto
  qed
  then show "a \<le> fold (\<lambda>c m. max m (f c)) xs (a::int)"
    and "x \<in> set xs \<Longrightarrow> f x \<le> fold (\<lambda>c m. max m (f c)) xs (a::int)" by auto
qed

lemma max_layers_below_nonneg: "0 \<le> max_layers_below self"
  using fold_max_layers_ge(1) [of "-1" max_layers_below "map snd (children self)"]
  by (subst max_layers_below.simps) simp

lemma max_layers_below_child:
  assumes "child_at self c = Some child"
  shows "max_layers_below child + 1 \<le> max_layers_below self"
proof -
  from assms have "(c, child) \<in> set (children self)"
    by (simp add: child_at_def map_of_SomeD)
  then have "child \<in> set (map snd (children self))" by force
  from fold_max_layers_ge(2) [OF this, of max_layers_below "-1"] show ?thesis
    by (subst (2) max_layers_below.simps) simp
qed

lemma call_depth_le_layers:
  "call_depth iter self space \<le> nat (max_layers_below self)"
proof (induction iter self space rule: call_depth.induct)
  case (1 iter self space)
  show ?case
  proof (cases "max_blanks space = 0")
    case True
    then show ?thesis by (subst call_depth.simps) simp
  next
    case False
    have "(case child_at self c of
             None \<Rightarrow> 0
           | Some child \<Rightarrow>
               (case clone_minus space 1 None of
                  Inl e \<Rightarrow> 0
                | Inr space' \<Rightarrow> Suc (call_depth iter child space'))) \<le> nat (max_layers_below self)"
      if c: "c \<in> set (iter (possible_characters space))" for c
    proof (cases "child_at self c")
      case None
      then show ?thesis by simp
    next
      case (Some child)
      from False obtain space' where sp: "clone_minus space 1 None = Inr space'"
        using clone_minus_Inr by blast
      from "1.IH" [OF False c Some sp] max_layers_below_child [OF Some]
        max_layers_below_nonneg [of child]
      have "Suc (call_depth iter child space') \<le> nat (max_layers_below self)" by simp
      with Some sp show ?thesis by simp
    qed
    with False show ?thesis by (subst call_depth.simps) (simp add: fold_max_le)
  qed
qed

text \<open>
  C8. For every node of a trie and every class, also one with no upper bound,
  \<open>get_possible_children\<close> returns a list of nodes (the function is total and raises
  nothing); the depth of its calls is at most \<open>max_blanks\<close> when that is not negative, and
  always at most the number of layers below the starting node.
\<close>

theorem C8_get_possible_children_bounded:
  "(\<exists>nodes. get_possible_children iter (path, self) space = Inr nodes)
   \<and> (0 \<le> max_blanks space \<longrightarrow> int (call_depth iter self space) \<le> max_blanks space)
   \<and> int (call_depth iter self space) \<le> max_layers_below self"
  using gpc_total [of iter "(path, self)" space] call_depth_le_max [of space iter self]
    call_depth_le_layers [of iter self space] max_layers_below_nonneg [of self]
  by auto

theorem C8_get_possible_children_bounded_witness:
  "get_possible_children sorted_list_of_set ([], (DictionaryNode False [(CHR ''a'', DictionaryNode True [(CHR ''a'', DictionaryNode True [])])])) (BlankSpace_init True False 0 1 (Str ''a''))
     = Inr [([], (DictionaryNode False [(CHR ''a'', DictionaryNode True [(CHR ''a'', DictionaryNode True [])])])), (''a'', DictionaryNode True [(CHR ''a'', DictionaryNode True [])])]
   \<and> 0 \<le> max_blanks (BlankSpace_init True False 0 1 (Str ''a''))
   \<and> call_depth sorted_list_of_set (DictionaryNode False [(CHR ''a'', DictionaryNode True [(CHR ''a'', DictionaryNode True [])])]) (BlankSpace_init True False 0 1 (Str ''a'')) = 1
   \<and> int (call_depth sorted_list_of_set (DictionaryNode False [(CHR ''a'', DictionaryNode True [(CHR ''a'', DictionaryNode True [])])]) (BlankSpace_init True False 0 1 (Str ''a'')))
       \<le> max_blanks (BlankSpace_init True False 0 1 (Str ''a''))
   \<and> (\<exists>nodes. get_possible_children sorted_list_of_set ([], (DictionaryNode False [(CHR ''a'', DictionaryNode True [(CHR ''a'', DictionaryNode True [])])]))
         (BlankSpace_init True False 0 (-1) (Str ''a'')) = Inr nodes)
   \<and> call_depth sorted_list_of_set (DictionaryNode False [(CHR ''a'', DictionaryNode True [(CHR ''a'', DictionaryNode True [])])]) (BlankSpace_init True False 0 (-1) (Str ''a'')) = 2
   \<and> max_layers_below (DictionaryNode False [(CHR ''a'', DictionaryNode True [(CHR ''a'', DictionaryNode True [])])]) = 2
   \<and> int (call_depth sorted_list_of_set (DictionaryNode False [(CHR ''a'', DictionaryNode True [(CHR ''a'', DictionaryNode True [])])]) (BlankSpace_init True False 0 (-1) (Str ''a'')))
       \<le> max_layers_below (DictionaryNode False [(CHR ''a'', DictionaryNode True [(CHR ''a'', DictionaryNode True [])])])"
proof -
  have nodes: "get_possible_children sorted_list_of_set ([], (DictionaryNode False [(CHR ''a'', DictionaryNode True [(CHR ''a'', DictionaryNode True [])])]))
      (BlankSpace_init True False 0 1 (Str ''a''))
     = Inr [([], (DictionaryNode False [(CHR ''a'', DictionaryNode True [(CHR ''a'', DictionaryNode True [])])])), (''a'', DictionaryNode True [(CHR ''a'', DictionaryNode True [])])]"
    by (simp add: get_possible_children.simps child_at_def clone_minus_def is_empty_def
        BlankSpace_init_def append_chars_def add_chars_def Let_def)
  have d1: "call_depth sorted_list_of_set (DictionaryNode False [(CHR ''a'', DictionaryNode True [(CHR ''a'', DictionaryNode True [])])]) (BlankSpace_init True False 0 1 (Str ''a'')) = 1"
    by (simp add: call_depth.simps child_at_def clone_minus_def is_empty_def
        BlankSpace_init_def append_chars_def add_chars_def Let_def)
  have d2: "call_depth sorted_list_of_set (DictionaryNode False [(CHR ''a'', DictionaryNode True [(CHR ''a'', DictionaryNode True [])])]) (BlankSpace_init True False 0 (-1) (Str ''a'')) = 2"
    by (simp add: call_depth.simps child_at_def clone_minus_def is_empty_def
        BlankSpace_init_def append_chars_def add_chars_def Let_def)
  have layers: "max_layers_below (DictionaryNode False [(CHR ''a'', DictionaryNode True [(CHR ''a'', DictionaryNode True [])])]) = 2"
    by (subst max_layers_below.simps, simp, subst max_layers_below.simps, simp,
        subst max_layers_below.simps, simp)
  show ?thesis
    using nodes d1 d2 layers
      C8_get_possible_children_bounded [of sorted_list_of_set "[]" "DictionaryNode False [(CHR ''a'', DictionaryNode True [(CHR ''a'', DictionaryNode True [])])]"
        "BlankSpace_init True False 0 1 (Str ''a'')"]
      C8_get_possible_children_bounded [of sorted_list_of_set "[]" "DictionaryNode False [(CHR ''a'', DictionaryNode True [(CHR ''a'', DictionaryNode True [])])]"
        "BlankSpace_init True False 0 (-1) (Str ''a'')"]
    by (simp add: BlankSpace_init_fields)
qed

section \<open>The parser\<close>

lemma find_str_notin: "c \<notin> set xs \<Longrightarrow> find_str xs c = -1"
  by (induction xs) (auto simp add: Let_def)

lemma slice_from: "0 \<le> i \<Longrightarrow> i \<le> int (length xs) \<Longrightarrow> slice xs (Some i) None = drop (nat i) xs"
  by (simp add: slice_def slice_index_def Let_def min_def)

lemma slice_empty: "0 \<le> i \<Longrightarrow> slice xs (Some i) (Some i) = []"
  by (simp add: slice_def slice_index_def Let_def)

lemma parse_blank_space_empty: "parse_blank_space (Some []) = Inr None"
  by (simp add: parse_blank_space_def)

lemma is_digit_value: "is_digit c \<Longrightarrow> 0 \<le> digit_value c \<and> digit_value c \<le> 9"
  by (auto simp add: is_digit_def digit_value_def less_eq_char_def)

lemma digits_rest_nonneg: "digits_rest s a = Some v \<Longrightarrow> 0 \<le> a \<Longrightarrow> 0 \<le> v"
proof (induction s a rule: digits_rest.induct)
  case (1 a)
  then show ?case by simp
next
  case (2 c a)
  then show ?case using is_digit_value [of c] by (auto split: if_splits)
next
  case (3 c d ds a)
  then show ?case using is_digit_value [of c] is_digit_value [of d] by (auto split: if_splits)
qed

lemma is_digit_not_space: "is_digit c \<Longrightarrow> \<not> is_space c"
  by (auto simp add: is_digit_def is_space_def less_eq_char_def)

lemma strip_digit_first:
  assumes "is_digit c"
  shows "\<exists>t. strip (c # cs) = c # t"
proof -
  have ns: "\<not> is_space c" using assms by (rule is_digit_not_space)
  have "dropWhile is_space (rev cs @ [c]) \<noteq> []"
    using ns by (simp add: dropWhile_append3)
  moreover have "dropWhile is_space (rev cs @ [c]) = [] \<or> last (dropWhile is_space (rev cs @ [c])) = c"
    using ns by (induction "rev cs" arbitrary: cs) (auto simp add: dropWhile_append)
  ultimately obtain ys where "dropWhile is_space (rev cs @ [c]) = ys @ [c]"
    by (metis append_butlast_last_id)
  then show ?thesis using ns by (simp add: strip_def)
qed

lemma py_int_Some: "py_int s = Some v \<Longrightarrow> int_literal s = Some v"
  by (auto simp add: py_int_def split: option.splits if_splits)

lemma py_int_digit_nonneg:
  assumes "is_digit c" and "py_int (c # cs) = Some v"
  shows "0 \<le> v"
proof -
  from strip_digit_first [OF assms(1)] obtain t where t: "strip (c # cs) = c # t" by blast
  have "c \<noteq> CHR ''-''" "c \<noteq> CHR ''+''" using assms(1) by (auto simp add: is_digit_def)
  moreover from assms(2) have "int_literal (c # cs) = Some v" by (rule py_int_Some)
  ultimately have "digits_rest t (digit_value c) = Some v"
    using assms(1) t by (simp add: int_literal_def)
  then show ?thesis using is_digit_value [OF assms(1)] by (auto dest: digits_rest_nonneg)
qed

lemma max_loop_nonneg: "0 \<le> m \<Longrightarrow> 0 \<le> fst (max_loop s m i)"
proof (induction s arbitrary: m i)
  case Nil
  then show ?case by simp
next
  case (Cons c s)
  then show ?case using is_digit_value [of c] by simp
qed

lemma find_str_ge: "- 1 \<le> find_str s c"
  by (induction s) (auto simp add: Let_def)

lemma find_str_nth: "find_str s c \<noteq> - 1 \<Longrightarrow> find_str s c < int (length s) \<and> s ! nat (find_str s c) = c"
proof (induction s)
  case Nil
  then show ?case by simp
next
  case (Cons x s)
  show ?case
  proof (cases "x = c")
    case True
    then show ?thesis by simp
  next
    case False
    with Cons.prems have n: "find_str s c \<noteq> - 1" by (auto simp add: Let_def split: if_splits)
    from Cons.IH [OF n] find_str_ge [of s c] n False show ?thesis
      by (auto simp add: Let_def nat_add_distrib)
  qed
qed

lemma slice_to: "0 \<le> i \<Longrightarrow> slice xs None (Some i) = take (nat i) xs"
  by (auto simp add: slice_def slice_index_def Let_def min_def)

lemma parse_min_ok:
  assumes "parse_min string unknown = Inr (minlen, index, c)" and "unknown \<noteq> []"
  shows "0 \<le> minlen"
proof (cases "is_digit (unknown ! 0)")
  case False
  with assms show ?thesis by (simp add: parse_min_def Let_def)
next
  case True
  from assms(2) obtain c0 rest where u: "unknown = c0 # rest" by (cases unknown) auto
  let ?i = "find_str unknown CHR '',''"
  from True u have d: "is_digit c0" by simp
  from assms(1) True have i: "?i \<noteq> - 1"
    by (auto simp add: parse_min_def Let_def split: if_splits)
  from assms(1) True i have p: "py_int (slice unknown None (Some ?i)) = Some minlen"
    by (auto simp add: parse_min_def Let_def split: option.splits)
  from d have "c0 \<noteq> CHR '',''" by (auto simp add: is_digit_def)
  with u i find_str_ge [of rest "CHR '',''"] have "1 \<le> ?i" by (auto simp add: Let_def)
  then have "slice unknown None (Some ?i) = c0 # take (nat ?i - 1) rest"
    using u by (simp add: slice_to take_Cons')
  with p d show ?thesis using py_int_digit_nonneg by auto
qed

lemma parse_max_ok:
  assumes "parse_max unknown minlen0 maxlen0 index0 c = (minlen, maxlen, index)"
    and "0 \<le> minlen0" and "- 1 \<le> maxlen0"
  shows "0 \<le> minlen \<and> - 1 \<le> maxlen"
proof -
  have ml: "0 \<le> fst (max_loop s 0 k)" for s k by (rule max_loop_nonneg) simp
  show ?thesis
    using assms ml [of "drop (Suc index0) unknown" "Suc index0"]
    by (auto simp add: parse_max_def Let_def split: if_splits prod.splits)
qed

lemma parse_bounds_ok:
  assumes "parse_bounds string bracket unknown = Inr (minlen, maxlen, index)"
  shows "0 \<le> minlen \<and> (maxlen = - 1 \<or> minlen \<le> maxlen)"
proof -
  from assms have ne: "unknown \<noteq> []" by (auto simp add: parse_bounds_def split: if_splits)
  from assms ne obtain minlen0 index0 c where
    pm: "parse_min string unknown = Inr (minlen0, index0, c)"
    by (auto simp add: parse_bounds_def split: sum.splits)
  obtain minlen1 maxlen1 index1 where
    px: "parse_max unknown minlen0 (if bracket \<noteq> CHR ''['' then - 1 else 1) index0 c
          = (minlen1, maxlen1, index1)"
    by (cases "parse_max unknown minlen0 (if bracket \<noteq> CHR ''['' then - 1 else 1) index0 c") auto
  from parse_max_ok [OF px] parse_min_ok [OF pm ne]
  have b: "0 \<le> minlen1" "- 1 \<le> maxlen1" by auto
  from assms ne pm px have "\<not> (- 1 < maxlen1 \<and> maxlen1 < minlen1)" "minlen = minlen1" "maxlen = maxlen1"
    by (auto simp add: parse_bounds_def Let_def split: if_splits sum.splits)
  with b show ?thesis by auto
qed

lemma letters_loop_fields:
  "letters_loop string ls res i = Inr r \<Longrightarrow>
     min_blanks r = min_blanks res \<and> max_blanks r = max_blanks res
     \<and> negated r = negated res \<and> bracketed r = bracketed res"
proof (induction ls arbitrary: res i)
  case Nil
  then show ?case by simp
next
  case (Cons c ls)
  then show ?case
    by (auto simp add: append_chars_def add_chars_def remove_chars_def split: if_splits)
qed

lemma parse_chars_fields:
  assumes "parse_chars string unknown minlen maxlen index = Inr (Some q)"
  shows "min_blanks q = minlen \<and> max_blanks q = maxlen \<and> bracketed q"
  using assms
  by (auto simp add: parse_chars_def Let_def BlankSpace_init_fields
      split: if_splits sum.splits dest!: letters_loop_fields)

lemma parse_blank_space_bounds:
  assumes "parse_blank_space s = Inr (Some q)"
  shows "0 \<le> min_blanks q \<and> (max_blanks q = - 1 \<or> min_blanks q \<le> max_blanks q)"
proof -
  from assms obtain string where s: "s = Some string" "string \<noteq> []"
    by (cases s) (auto simp add: parse_blank_space_def split: if_splits)
  show ?thesis
  proof (cases "length (lower string) = 1")
    case True
    with assms s show ?thesis
      by (auto simp add: parse_blank_space_def Let_def BlankSpace_init_fields split: if_splits)
  next
    case False
    with assms s obtain minlen maxlen index where
      pb: "parse_bounds string (hd (lower string)) (slice (lower string) (Some 1) (Some (- 1)))
            = Inr (minlen, maxlen, index)"
      and pc: "parse_chars string (slice (lower string) (Some 1) (Some (- 1))) minlen maxlen index
            = Inr (Some q)"
      by (auto simp add: parse_blank_space_def Let_def split: if_splits sum.splits)
    from parse_bounds_ok [OF pb] parse_chars_fields [OF pc] show ?thesis by simp
  qed
qed

text \<open>
  The loop of \<open>parse_unknown_word\<close> returns nothing while it stands at an opening square
  bracket that is never closed; when it does return, no \<open>None\<close> is among the spaces, so
  the error \<open>NoneSpace\<close> of the model never shows.
\<close>

lemma letters_loop_error: "letters_loop string ls res i = Inl e \<Longrightarrow> e \<noteq> NoneSpace"
  by (induction ls arbitrary: res i) (auto split: if_splits)

lemma parse_min_error: "parse_min string unknown = Inl e \<Longrightarrow> e \<noteq> NoneSpace"
  by (auto simp add: parse_min_def Let_def split: if_splits option.splits)

lemma str_int_error: "str_int i = Inl e \<Longrightarrow> e \<noteq> NoneSpace"
  by (auto simp add: str_int_def split: if_splits)

lemma parse_bounds_error: "parse_bounds string bracket unknown = Inl e \<Longrightarrow> e \<noteq> NoneSpace"
  by (auto simp add: parse_bounds_def Let_def split: if_splits sum.splits prod.splits
      dest: parse_min_error str_int_error)

lemma parse_chars_result:
  "parse_chars string unknown minlen maxlen index = r \<Longrightarrow> r \<noteq> Inl NoneSpace \<and> r \<noteq> Inr None"
  by (auto simp add: parse_chars_def Let_def split: if_splits sum.splits dest: letters_loop_error)

lemma parse_blank_space_result:
  "parse_blank_space (Some s) = r \<Longrightarrow> r \<noteq> Inl NoneSpace \<and> (r = Inr None \<longrightarrow> s = [])"
  using parse_chars_result
  by (auto simp add: parse_blank_space_def Let_def split: if_splits sum.splits prod.splits
      dest: parse_bounds_error)


lemma find_str_minus1: "find_str xs c = - 1 \<longleftrightarrow> c \<notin> set xs"
proof (induction xs)
  case Nil
  then show ?case by simp
next
  case (Cons x xs)
  then show ?case using find_str_ge [of xs c] by (auto simp add: Let_def)
qed

lemma slice_not_empty:
  "0 \<le> i \<Longrightarrow> i < int (length xs) \<Longrightarrow> i < j \<Longrightarrow> slice xs (Some i) (Some j) \<noteq> []"
  by (auto simp add: slice_def slice_index_def Let_def min_def)

lemma word_loop_invariant:
  assumes "word_loop string unknown spaces0 filter0 hard_filter0 index = Some y"
  shows "0 \<le> index \<longrightarrow>
       \<not> (index < int (length unknown) \<and> unknown ! nat index = CHR ''[''
            \<and> CHR '']'' \<notin> set (drop (nat index) unknown))
       \<and> y \<noteq> Inl NoneSpace
       \<and> (None \<notin> set spaces0 \<longrightarrow> (\<forall>sp f h. y = Inr (sp, f, h) \<longrightarrow> None \<notin> set sp))"
proof (rule word_loop.raw_induct
    [where P = "\<lambda>string unknown spaces0 filter0 hard_filter0 index y.
       0 \<le> index \<longrightarrow>
       \<not> (index < int (length unknown) \<and> unknown ! nat index = CHR ''[''
            \<and> CHR '']'' \<notin> set (drop (nat index) unknown))
       \<and> y \<noteq> Inl NoneSpace
       \<and> (None \<notin> set spaces0 \<longrightarrow> (\<forall>sp f h. y = Inr (sp, f, h) \<longrightarrow> None \<notin> set sp))",
     OF _ assms], goal_cases)
  case (1 f string unknown spaces0 filter0 hard_filter0 index y)
  note IH = "1"(1) and body = "1"(2)
  show ?case
  proof
    assume i0: "0 \<le> index"
    show "\<not> (index < int (length unknown) \<and> unknown ! nat index = CHR ''[''
            \<and> CHR '']'' \<notin> set (drop (nat index) unknown))
       \<and> y \<noteq> Inl NoneSpace
       \<and> (None \<notin> set spaces0 \<longrightarrow> (\<forall>sp f h. y = Inr (sp, f, h) \<longrightarrow> None \<notin> set sp))"
    proof (cases "index < int (length unknown)")
      case False
      with body show ?thesis by auto
    next
      case True
      define c where "c = unknown ! nat index"
      have g: "getitem_str unknown index = Inr c"
        using i0 True by (simp add: getitem_str_def c_def)
      consider (single) "c = CHR ''_'' \<or> is_letter c"
        | (space) "\<not> (c = CHR ''_'' \<or> is_letter c)" "c = CHR ''[''"
        | (filter) "\<not> (c = CHR ''_'' \<or> is_letter c)" "c = CHR ''{'' \<or> c = CHR ''(''"
        | (other) "\<not> (c = CHR ''_'' \<or> is_letter c)"
            "\<not> (c = CHR ''['' \<or> c = CHR ''{'' \<or> c = CHR ''('')"
        by auto
      then show ?thesis
      proof cases
        case single
        then have nb: "unknown ! nat index \<noteq> CHR ''[''"
          by (auto simp add: c_def is_letter_def)
        show ?thesis
        proof (cases "parse_blank_space (Some [c])")
          case (Inl e)
          with body True g single nb parse_blank_space_result [OF Inl] show ?thesis by auto
        next
          case (Inr space)
          with parse_blank_space_result [OF Inr] have sp: "space \<noteq> None" by auto
          from body True g single Inr
          have "f string unknown (spaces0 @ [space]) filter0 hard_filter0 (index + 1) = Some y"
            by auto
          from IH [OF this] i0 sp nb show ?thesis by auto
        qed
      next
        case space
        let ?k = "find_str (slice unknown (Some index) None) CHR '']''"
        let ?s = "slice unknown (Some index) (Some (?k + index + 1))"
        have k: "- 1 \<le> ?k" by (rule find_str_ge)
        have sl: "slice unknown (Some index) None = drop (nat index) unknown"
          using i0 True by (simp add: slice_from)
        show ?thesis
        proof (cases "parse_blank_space (Some ?s)")
          case (Inl e)
          with body True g space have y: "y = Inl e"
            by (auto simp add: BRACKET_MATCHES_def Let_def is_letter_def)
          have "?k \<noteq> - 1"
          proof
            assume "?k = - 1"
            then have "?s = []" using i0 by (simp add: slice_empty)
            with Inl show False by (simp add: parse_blank_space_empty)
          qed
          then have "CHR '']'' \<in> set (drop (nat index) unknown)"
            using find_str_minus1 [of "drop (nat index) unknown" "CHR '']''"] sl by simp
          with y parse_blank_space_result [OF Inl] show ?thesis by auto
        next
          case (Inr sp)
          from body True g space Inr
          have r: "f string unknown (spaces0 @ [sp]) filter0 hard_filter0 (?k + index + 1) = Some y"
            by (auto simp add: BRACKET_MATCHES_def Let_def is_letter_def)
          show ?thesis
          proof (cases "?k = - 1")
            case stuck: True
            then have "CHR '']'' \<notin> set (drop (nat index) unknown)"
              using find_str_minus1 [of "drop (nat index) unknown" "CHR '']''"] sl by simp
            moreover from r stuck
            have "f string unknown (spaces0 @ [sp]) filter0 hard_filter0 index = Some y" by simp
            from IH [OF this] i0
            have "\<not> (index < int (length unknown) \<and> unknown ! nat index = CHR ''[''
                \<and> CHR '']'' \<notin> set (drop (nat index) unknown))" by simp
            ultimately show ?thesis using True space(2) by (simp add: c_def)
          next
            case False
            then have in_rest: "CHR '']'' \<in> set (drop (nat index) unknown)"
              using find_str_minus1 [of "drop (nat index) unknown" "CHR '']''"] sl by simp
            from False k have "index < ?k + index + 1" by simp
            then have "?s \<noteq> []" using i0 True by (intro slice_not_empty) auto
            with parse_blank_space_result [OF Inr] have "sp \<noteq> None" by auto
            with IH [OF r] i0 k in_rest show ?thesis by auto
          qed
        qed
      next
        case filter
        then have nb: "unknown ! nat index \<noteq> CHR ''[''" by (auto simp add: c_def)
        from filter obtain e where bm: "BRACKET_MATCHES c = Some e"
          by (auto simp add: BRACKET_MATCHES_def)
        from filter have c1: "(c = CHR ''_'' \<or> is_letter c) = False"
          and c2: "(c = CHR ''['' \<or> c = CHR ''{'' \<or> c = CHR ''('') = True"
          and c3: "(c = CHR ''['') = False"
          and c4: "(c = CHR ''{'' \<or> c = CHR ''('') = True"
          by auto
        let ?k = "find_str (slice unknown (Some index) None) e"
        let ?s = "slice unknown (Some index) (Some (?k + index + 1))"
        have k: "- 1 \<le> ?k" by (rule find_str_ge)
        show ?thesis
        proof (cases "parse_blank_space (Some ?s)")
          case (Inl e')
          with body True have "y = Inl e'"
            by (simp add: g c1 c2 c3 c4 bm Let_def)
          with nb parse_blank_space_result [OF Inl] show ?thesis by auto
        next
          case (Inr sp)
          show ?thesis
          proof (cases "?k + index \<noteq> int (length unknown) - 1")
            case ne: True
            with body True Inr have "\<exists>e'. y = Inl e' \<and> e' \<noteq> NoneSpace"
              by (auto simp add: g c1 c2 c3 c4 bm Let_def)
            with nb show ?thesis by auto
          next
            case False
            with body True Inr
            have r: "f string unknown spaces0 sp (c = CHR ''{'') (?k + index + 1) = Some y"
              by (simp add: g c1 c2 c3 c4 bm Let_def)
            with IH [OF r] i0 k nb show ?thesis by auto
          qed
        qed
      next
        case other
        then have nb: "unknown ! nat index \<noteq> CHR ''[''" by (auto simp add: c_def)
        with other body True g show ?thesis by auto
      qed
    qed
  qed
qed

lemma those_Some: "None \<notin> set xs \<Longrightarrow> \<exists>ys. those xs = Some ys"
proof (induction xs)
  case Nil
  then show ?case by simp
next
  case (Cons a xs)
  then obtain y ys where "a = Some y" "those xs = Some ys" by (cases a) auto
  then show ?case by simp
qed

lemma parse_unknown_word_no_NoneSpace: "parse_unknown_word s \<noteq> Some (Inl NoneSpace)"
proof
  assume a: "parse_unknown_word s = Some (Inl NoneSpace)"
  then obtain string where s: "s = Some string" "string \<noteq> []"
    by (cases s) (auto simp add: parse_unknown_word_def split: if_splits)
  from a s obtain y where y: "word_loop string (lower string) [] None False 0 = Some y"
    by (cases "word_loop string (lower string) [] None False 0")
      (auto simp add: parse_unknown_word_def)
  from word_loop_invariant [OF y]
  have inv: "y \<noteq> Inl NoneSpace" "\<And>sp f h. y = Inr (sp, f, h) \<Longrightarrow> None \<notin> set sp"
    by auto
  show False
  proof (cases y)
    case (Inl e)
    with a s y inv show False by (simp add: parse_unknown_word_def)
  next
    case (Inr t)
    obtain sp f h where t: "t = (sp, f, h)" by (cases t) auto
    from inv(2) Inr t have "None \<notin> set sp" by simp
    then obtain sp' where "those sp = Some sp'"
      using those_Some by blast
    with a s y Inr t show False
      by (auto simp add: parse_unknown_word_def UnknownWord_init_def split: option.splits if_splits)
  qed
qed

lemma word_loop_unclosed:
  assumes "0 \<le> index" "index < int (length unknown)"
      "unknown ! nat index = CHR ''[''" "CHR '']'' \<notin> set (drop (nat index) unknown)"
  shows "word_loop string unknown spaces0 filter0 hard_filter0 index = None"
proof (cases "word_loop string unknown spaces0 filter0 hard_filter0 index")
  case None
  then show ?thesis .
next
  case (Some y)
  from word_loop_invariant [OF this] assms show ?thesis by simp
qed

text \<open>
  C10. Given \<open>None\<close> or the empty string, \<open>parse_blank_space\<close> and \<open>parse_unknown_word\<close>
  each return \<open>None\<close>: no exception, no class, no pattern.
\<close>

theorem C10_empty_input:
  "parse_blank_space None = Inr None \<and> parse_blank_space (Some []) = Inr None
   \<and> parse_unknown_word None = Some (Inr None)
   \<and> parse_unknown_word (Some []) = Some (Inr None)"
  by (simp add: parse_blank_space_def parse_unknown_word_def)

text \<open>
  C2. The claim: a text with an opening delimiter that is never closed makes
  \<open>parse_unknown_word\<close> raise a parse error. On \<open>[abc\<close> the search for the closing bracket
  fails, the empty slice parses to \<open>None\<close>, which is appended, and \<open>index\<close> comes back to
  where it was: the loop never ends and \<open>parse_unknown_word\<close> returns nothing.
\<close>

theorem C2_unclosed_bracket_diverges:
  "parse_unknown_word (Some ''[abc'') = None"
proof -
  have "word_loop ''[abc'' ''[abc'' [] None False 0 = None"
    by (rule word_loop_unclosed) simp_all
  then show ?thesis
    by (simp add: parse_unknown_word_def lower_def lower_char_def)
qed

text \<open>
  C3. The claim: the constructor rejects a finite \<open>max_blanks\<close> below \<open>min_blanks\<close>. The
  constructor checks nothing: with bounds 5 and 2 it returns an instance that has neither
  \<open>max_blanks = -1\<close> nor \<open>max_blanks \<ge> min_blanks\<close>.
\<close>

theorem C3_constructor_accepts_counterexample:
  "\<not> (max_blanks (BlankSpace_init True False 5 2 (Str ''a'')) = - 1
       \<or> min_blanks (BlankSpace_init True False 5 2 (Str ''a''))
           \<le> max_blanks (BlankSpace_init True False 5 2 (Str ''a'')))"
  by (simp add: BlankSpace_init_fields)

text \<open>
  C3, as amended: for every combination of flags and characters and every
  \<open>min_blanks > max_blanks \<ge> 0\<close> the constructor returns an instance that holds these
  bounds as given. The check is in \<open>parse_blank_space\<close>: every class it returns has
  \<open>max_blanks = -1\<close> or \<open>max_blanks \<ge> min_blanks\<close>.
\<close>

theorem C3_bounds_checked_by_parser:
  "(0 \<le> hi \<and> hi < lo \<longrightarrow>
      min_blanks (BlankSpace_init b n lo hi cs) = lo
      \<and> max_blanks (BlankSpace_init b n lo hi cs) = hi)
   \<and> (parse_blank_space s = Inr (Some q) \<longrightarrow>
        max_blanks q = - 1 \<or> min_blanks q \<le> max_blanks q)"
  using parse_blank_space_bounds [of s q] by (simp add: BlankSpace_init_fields)

theorem C3_bounds_checked_by_parser_witness:
  "(0::int) \<le> 2 \<and> (2::int) < 5
   \<and> min_blanks (BlankSpace_init True False 5 2 (Str ''a'')) = 5
   \<and> max_blanks (BlankSpace_init True False 5 2 (Str ''a'')) = 2
   \<and> parse_blank_space (Some ''[2,5a]'') = Inr (Some (BlankSpace_init True False 2 5 (Str ''a'')))
   \<and> (max_blanks (BlankSpace_init True False 2 5 (Str ''a'')) = - 1
       \<or> min_blanks (BlankSpace_init True False 2 5 (Str ''a''))
           \<le> max_blanks (BlankSpace_init True False 2 5 (Str ''a'')))
   \<and> parse_blank_space (Some ''[5,2a]'')
       = Inl (ParseError ''BlankSpace'' ''[5,2a]''
                ''Lower bound (5) cannot be more than upper bound (2)'' 4)"
proof -
  have p: "parse_blank_space (Some ''[2,5a]'') = Inr (Some (BlankSpace_init True False 2 5 (Str ''a'')))"
    by code_simp
  have e: "parse_blank_space (Some ''[5,2a]'')
       = Inl (ParseError ''BlankSpace'' ''[5,2a]''
                ''Lower bound (5) cannot be more than upper bound (2)'' 4)"
    by code_simp
  show ?thesis
    using p e
      C3_bounds_checked_by_parser [of 2 5 True False "Str ''a''" "Some ''[2,5a]''"
        "BlankSpace_init True False 2 5 (Str ''a'')"]
    by simp
qed

section \<open>Matching a pattern\<close>

lemma set_iteration_single: "set_iteration iter \<Longrightarrow> iter {x} = [x]"
proof -
  assume a: "set_iteration iter"
  then have s: "set (iter {x}) = {x}" and d: "distinct (iter {x})"
    by (simp_all add: set_iteration_def)
  from d have "length (iter {x}) = card (set (iter {x}))" by (simp add: distinct_card)
  with s have "length (iter {x}) = 1" by simp
  then obtain y where "iter {x} = [y]" by (cases "iter {x}") auto
  with s show ?thesis by simp
qed

lemma set_iteration_sorted: "set_iteration sorted_list_of_set"
  by (simp add: set_iteration_def)

lemma cat_trie:
  "create_dict_trie [''cat'', ''ca'', ''caat'', ''cab''] = Inr example_root"
  by code_simp

lemma cat_pattern:
  "parse_unknown_word (Some ''c[1,2a]t'') = Some (Inr (Some example_pattern))"
  by code_simp

lemma cat_match:
  assumes "set_iteration iter"
  shows "match_pattern iter example_pattern example_root = Inr [''cat'', ''caat'']"
  by (simp add: match_pattern_def get_effective_spaces_def get_possible_children.simps
      set_iteration_single [OF assms] child_at_def clone_minus_def is_empty_def BlankSpace_init_def
      append_chars_def add_chars_def Let_def)

text \<open>
  C1. The claim: on the trie of cat, ca, caat and cab the pattern \<open>c[1,2a]t\<close> matches
  exactly the word cat. The space \<open>[1,2a]\<close> takes one or two letters a, so the search
  reaches the node of caat as well, and that node is a word: the words matched are cat and
  caat.
\<close>

theorem C1_match_cat_counterexample:
  "parse_unknown_word (Some ''c[1,2a]t'') = Some (Inr (Some example_pattern))
   \<and> create_dict_trie [''cat'', ''ca'', ''caat'', ''cab''] = Inr example_root
   \<and> match_pattern sorted_list_of_set example_pattern example_root = Inr [''cat'', ''caat'']
   \<and> set [''cat'', ''caat''] \<noteq> {''cat''}"
  using cat_trie cat_pattern cat_match [OF set_iteration_sorted] by simp

text \<open>
  C1, as amended: for the trie built from cat, ca, caat and cab, matching the pattern
  \<open>c[1,2a]t\<close> yields exactly the words cat and caat, in whatever order the sets of
  characters are visited.
\<close>

theorem C1_match_cat:
  assumes "set_iteration iter"
  shows "\<exists>pattern root words.
     parse_unknown_word (Some ''c[1,2a]t'') = Some (Inr (Some pattern))
     \<and> create_dict_trie [''cat'', ''ca'', ''caat'', ''cab''] = Inr root
     \<and> match_pattern iter pattern root = Inr words
     \<and> set words = {''cat'', ''caat''}"
  using cat_trie cat_pattern cat_match [OF assms] by simp

theorem C1_match_cat_witness:
  "set_iteration sorted_list_of_set
   \<and> (\<exists>pattern root words.
     parse_unknown_word (Some ''c[1,2a]t'') = Some (Inr (Some pattern))
     \<and> create_dict_trie [''cat'', ''ca'', ''caat'', ''cab''] = Inr root
     \<and> match_pattern sorted_list_of_set pattern root = Inr words
     \<and> set words = {''cat'', ''caat''})"
  using C1_match_cat [OF set_iteration_sorted] set_iteration_sorted by simp

section \<open>The text of a class\<close>

lemma letter_nat: "is_letter c \<longleftrightarrow> 97 \<le> (of_char c :: nat) \<and> (of_char c :: nat) \<le> 122"
  by (simp add: is_letter_def less_eq_char_def)

lemma digit_nat: "is_digit c \<longleftrightarrow> 48 \<le> (of_char c :: nat) \<and> (of_char c :: nat) \<le> 57"
  by (simp add: is_digit_def less_eq_char_def)

lemma alphabet_letters: "\<forall>n \<in> {97..122::nat}. char_of n \<in> all_character_set"
  by code_simp

lemma all_character_set_iff: "c \<in> all_character_set \<longleftrightarrow> is_letter c"
proof
  assume "c \<in> all_character_set"
  then show "is_letter c"
    by (auto simp add: all_character_set_def ascii_lowercase_def is_letter_def)
next
  assume "is_letter c"
  then have "(of_char c :: nat) \<in> {97..122}" by (simp add: letter_nat)
  with alphabet_letters have "char_of (of_char c :: nat) \<in> all_character_set" by blast
  then show "c \<in> all_character_set" by simp
qed

lemma card_all_character_set: "card all_character_set = 26"
  by (simp add: all_character_set_def ascii_lowercase_def)

lemma lower_char_id:
  "is_letter c \<or> is_digit c \<or> c \<in> {CHR ''['', CHR '']'', CHR '','', CHR ''^'', CHR ''_''}
     \<Longrightarrow> lower_char c = c"
  by (auto simp add: lower_char_def letter_nat digit_nat Let_def)

lemma is_digit_char_of: "k < 10 \<Longrightarrow> is_digit (char_of (48 + k :: nat))"
  by (simp add: digit_nat)

lemma digit_value_char_of: "k < 10 \<Longrightarrow> digit_value (char_of (48 + k :: nat)) = int k"
  by (simp add: digit_value_def)

lemma digits_of_digits: "c \<in> set (digits_of n) \<Longrightarrow> is_digit c"
proof (induction n arbitrary: c rule: digits_of.induct)
  case (1 n)
  show ?case
  proof (cases "n < 10")
    case True
    with "1.prems" show ?thesis
      by (subst (asm) digits_of.simps) (simp add: is_digit_char_of)
  next
    case False
    with "1.prems" have "c \<in> set (digits_of (n div 10)) \<or> c = char_of (48 + n mod 10)"
      by (subst (asm) digits_of.simps) auto
    then show ?thesis
      using "1.IH" [OF False] is_digit_char_of [of "n mod 10"] by auto
  qed
qed

lemma digits_of_not_Nil: "digits_of n \<noteq> []"
  by (subst digits_of.simps) simp

lemma digits_of_value:
  "foldl (\<lambda>a d. a * 10 + digit_value d) 0 (digits_of n) = int n"
proof (induction n rule: digits_of.induct)
  case (1 n)
  show ?case
  proof (cases "n < 10")
    case True
    then show ?thesis
      by (subst digits_of.simps) (simp add: digit_value_char_of)
  next
    case False
    have "foldl (\<lambda>a d. a * 10 + digit_value d) 0 (digits_of n)
        = foldl (\<lambda>a d. a * 10 + digit_value d) 0 (digits_of (n div 10)) * 10 + int (n mod 10)"
      using False by (subst digits_of.simps) (simp add: digit_value_char_of)
    also have "\<dots> = int (n div 10) * 10 + int (n mod 10)"
      using "1.IH" [OF False] by simp
    also have "\<dots> = int n" by (simp add: zmod_int zdiv_int)
    finally show ?thesis .
  qed
qed

lemma digits_rest_digits:
  "(\<And>c. c \<in> set ds \<Longrightarrow> is_digit c) \<Longrightarrow>
     digits_rest ds a = Some (foldl (\<lambda>a d. a * 10 + digit_value d) a ds)"
  by (induction ds a rule: digits_rest.induct) auto

lemma strip_id:
  assumes "xs \<noteq> []" and "\<not> is_space (hd xs)" and "\<not> is_space (last xs)"
  shows "strip xs = xs"
proof -
  from assms(1,2) have a: "dropWhile is_space xs = xs" by (cases xs) auto
  from assms(1,3) have "dropWhile is_space (rev xs) = rev xs"
    by (cases "rev xs") (auto simp add: last_rev [symmetric] simp del: last_rev)
  with a show ?thesis by (simp add: strip_def)
qed

lemma int_literal_digits_of: "int_literal (digits_of n) = Some (int n)"
proof -
  obtain c cs where d: "digits_of n = c # cs"
    using digits_of_not_Nil [of n] by (cases "digits_of n") auto
  have all: "\<And>x. x \<in> set (c # cs) \<Longrightarrow> is_digit x"
    using digits_of_digits [of _ n] d by simp
  then have c: "is_digit c" by simp
  have l: "is_digit (last (c # cs))" using all [of "last (c # cs)"] by simp
  have s: "strip (c # cs) = c # cs"
    using c l by (intro strip_id) (auto dest: is_digit_not_space)
  have nm: "c \<noteq> CHR ''-''" "c \<noteq> CHR ''+''" using c by (auto simp add: is_digit_def)
  have "digits_rest cs (digit_value c) = Some (foldl (\<lambda>a d. a * 10 + digit_value d) (digit_value c) cs)"
    using all by (intro digits_rest_digits) simp
  also have "foldl (\<lambda>a d. a * 10 + digit_value d) (digit_value c) cs
      = foldl (\<lambda>a d. a * 10 + digit_value d) 0 (c # cs)" by simp
  also have "\<dots> = int n" using digits_of_value [of n] d by simp
  finally show ?thesis using s nm c d by (simp add: int_literal_def)
qed

lemma py_int_digits_of:
  assumes "length (digits_of n) \<le> int_max_str_digits"
  shows "py_int (digits_of n) = Some (int n)"
proof -
  have "filter is_digit (digits_of n) = digits_of n"
    by (simp add: digits_of_digits)
  with assms show ?thesis by (simp add: py_int_def int_literal_digits_of)
qed

lemma decimal_nonneg: "0 \<le> i \<Longrightarrow> decimal i = digits_of (nat i)"
  by (simp add: decimal_def)

lemma str_int_printable: "printable i \<Longrightarrow> str_int i = Inr (decimal i)"
  by (simp add: str_int_def printable_def)

lemma printable_nonneg:
  "printable i \<Longrightarrow> 0 \<le> i \<Longrightarrow> length (digits_of (nat i)) \<le> int_max_str_digits"
  by (simp add: printable_def)

lemma max_loop_digits:
  "(\<And>c. c \<in> set ds \<Longrightarrow> is_digit c) \<Longrightarrow> rest = [] \<or> \<not> is_digit (hd rest) \<Longrightarrow>
     max_loop (ds @ rest) m i = (foldl (\<lambda>a d. a * 10 + digit_value d) m ds, i + length ds)"
proof (induction ds arbitrary: m i)
  case Nil
  then show ?case by (cases rest) auto
next
  case (Cons d ds)
  then show ?case by simp
qed

lemma find_str_append: "c \<notin> set xs \<Longrightarrow> find_str (xs @ c # ys) c = int (length xs)"
  by (induction xs) (auto simp add: Let_def)

lemma letters_loop_letters:
  "(\<And>c. c \<in> set ls \<Longrightarrow> is_letter c) \<Longrightarrow>
     letters_loop string ls res i =
       Inr (res\<lparr>possible_characters :=
              (if negated res then possible_characters res - set ls
               else possible_characters res \<union> set ls)\<rparr>)"
proof (induction ls arbitrary: res i)
  case Nil
  then show ?case by simp
next
  case (Cons c ls)
  have d: "A - {c} - set ls = A - insert c (set ls)" for A :: "char set" by auto
  from Cons show ?case
    by (simp add: append_chars_def add_chars_def remove_chars_def d)
qed

lemma slice_inner: "slice (a # body @ [b]) (Some 1) (Some (- 1)) = body"
  by (simp add: slice_def slice_index_def Let_def)

lemma parse_min_no_digit:
  assumes "unknown \<noteq> []" and "\<not> is_digit (hd unknown)"
  shows "parse_min string unknown = Inr (1, 0, hd unknown)"
  using assms by (simp add: parse_min_def hd_conv_nth)

lemma parse_min_digits:
  assumes "length (digits_of n) \<le> int_max_str_digits"
  shows "parse_min string (digits_of n @ CHR '','' # rest)
     = Inr (int n, length (digits_of n), CHR '','')"
proof -
  let ?ds = "digits_of n"
  let ?u = "?ds @ CHR '','' # rest"
  have d0: "is_digit (?u ! 0)"
    using digits_of_not_Nil [of n] digits_of_digits [of "hd ?ds" n]
    by (cases ?ds) (auto simp add: nth_append)
  have nc: "CHR '','' \<notin> set ?ds"
    using digits_of_digits [of "CHR '',''" n] by (auto simp add: is_digit_def)
  have f: "find_str ?u CHR '','' = int (length ?ds)"
    using nc by (rule find_str_append)
  have s: "slice ?u None (Some (int (length ?ds))) = ?ds"
    by (simp add: slice_to)
  show ?thesis
    using d0 by (simp add: parse_min_def f s py_int_digits_of [OF assms])
qed

lemma parse_max_no_comma:
  "c \<noteq> CHR '','' \<Longrightarrow> parse_max unknown minlen maxlen index c = (minlen, maxlen, index)"
  by (simp add: parse_max_def)

lemma parse_max_unbounded:
  assumes "rest = [] \<or> \<not> is_digit (hd rest)"
  shows "parse_max (pre @ CHR '','' # rest) minlen maxlen (length pre) CHR '',''
     = (if length pre = 0 then 0 else minlen, - 1, length pre + 1)"
proof (cases rest)
  case Nil
  then show ?thesis by (simp add: parse_max_def Let_def)
next
  case (Cons r rs)
  with assms have "\<not> is_digit r" by simp
  with Cons show ?thesis by (simp add: parse_max_def Let_def nth_append)
qed

lemma parse_max_digits:
  assumes "rest = [] \<or> \<not> is_digit (hd rest)"
  shows "parse_max (pre @ CHR '','' # digits_of m @ rest) minlen maxlen (length pre) CHR '',''
     = (if length pre = 0 then 0 else minlen, int m, length pre + 1 + length (digits_of m))"
proof -
  let ?ds = "digits_of m"
  obtain d ds where d: "?ds = d # ds"
    using digits_of_not_Nil [of m] by (cases ?ds) auto
  have dig: "\<And>c. c \<in> set ?ds \<Longrightarrow> is_digit c" by (rule digits_of_digits)
  then have "is_digit d" using d by simp
  then have n: "is_digit ((pre @ CHR '','' # ?ds @ rest) ! Suc (length pre))"
    using d by (simp add: nth_append)
  have l: "max_loop (?ds @ rest) 0 (Suc (length pre))
      = (int m, Suc (length pre) + length ?ds)"
    using max_loop_digits [OF dig assms, where m = 0 and i = "Suc (length pre)"]
      digits_of_value [of m] by simp
  show ?thesis
    using n l digits_of_not_Nil [of m] by (simp add: parse_max_def Let_def)
qed

lemma repr_bracket:
  assumes "bracketed self \<or> negated self
     \<or> (card (possible_characters self) \<noteq> 1 \<and> card (possible_characters self) \<noteq> 26)"
    and "printable (min_blanks self)" and "printable (max_blanks self)"
  shows "repr iter self = Inr (CHR ''['' # bounds_text self @ chars_text iter self @ '']'')"
proof -
  note s = str_int_printable [OF assms(2)] str_int_printable [OF assms(3)]
  have ne: "sorted_list_of_set (possible_characters self) \<noteq> ascii_lowercase"
    if "possible_characters self \<noteq> all_character_set"
  proof
    assume "sorted_list_of_set (possible_characters self) = ascii_lowercase"
    then have "set (sorted_list_of_set (possible_characters self)) = set ascii_lowercase" by simp
    with that show False by (simp add: all_character_set_def)
  qed
  have nn: "CHR ''^'' # xs \<noteq> ascii_lowercase" for xs by (simp add: ascii_lowercase_def)
  show ?thesis
    using assms(1) ne nn
    by (auto simp add: repr_def bounds_text_def chars_text_def is_all_chars_def Let_def s)
qed

lemma parse_bounds_text:
  assumes min0: "0 \<le> min_blanks q"
    and max0: "max_blanks q = - 1 \<or> min_blanks q \<le> max_blanks q"
    and pmn: "printable (min_blanks q)" and pmx: "printable (max_blanks q)"
    and cs: "cs = [] \<or> (\<not> is_digit (hd cs) \<and> hd cs \<noteq> CHR '','')"
    and ne: "bounds_text q @ cs \<noteq> []"
  shows "parse_bounds string CHR ''['' (bounds_text q @ cs)
     = Inr (min_blanks q, max_blanks q, length (bounds_text q))"
proof (cases "min_blanks q = 1 \<and> max_blanks q = 1")
  case True
  then have b: "bounds_text q = []" by (simp add: bounds_text_def)
  with ne cs have c: "cs \<noteq> []" "\<not> is_digit (hd cs)" "hd cs \<noteq> CHR '',''" by auto
  show ?thesis
    using True c
    by (simp add: parse_bounds_def b parse_min_no_digit parse_max_no_comma)
next
  case False
  define mx where "mx = (if max_blanks q = - 1 then [] else decimal (max_blanks q))"
  define mn where "mn = (if min_blanks q = 0 then [] else decimal (min_blanks q))"
  have b: "bounds_text q = mn @ CHR '','' # mx"
    using False by (simp add: bounds_text_def mn_def mx_def)
  have cs': "cs = [] \<or> \<not> is_digit (hd cs)" using cs by auto
  have pmin: "parse_min string (mn @ CHR '','' # mx @ cs)
      = Inr (if min_blanks q = 0 then 1 else min_blanks q, length mn, CHR '','')"
  proof (cases "min_blanks q = 0")
    case True
    then show ?thesis
      by (simp add: mn_def parse_min_no_digit is_digit_def)
  next
    case False
    with min0 have "mn = digits_of (nat (min_blanks q))" by (simp add: mn_def decimal_nonneg)
    with False min0 show ?thesis
      by (simp add: parse_min_digits [OF printable_nonneg [OF pmn min0]])
  qed
  have len0: "length mn = 0 \<longleftrightarrow> min_blanks q = 0"
    using min0 digits_of_not_Nil by (auto simp add: mn_def decimal_nonneg)
  have pmax: "parse_max (mn @ CHR '','' # mx @ cs) minlen 1 (length mn) CHR '',''
      = (if length mn = 0 then 0 else minlen, max_blanks q, length mn + 1 + length mx)" for minlen
  proof (cases "max_blanks q = - 1")
    case True
    then show ?thesis
      using parse_max_unbounded [OF cs', of mn minlen 1] by (simp add: mx_def)
  next
    case False
    with max0 min0 have m: "0 \<le> max_blanks q" by auto
    with False have "mx = digits_of (nat (max_blanks q))" by (simp add: mx_def decimal_nonneg)
    with m show ?thesis
      using parse_max_digits [OF cs', of mn "nat (max_blanks q)" minlen 1] by simp
  qed
  have chk: "\<not> (- 1 < max_blanks q \<and> max_blanks q < min_blanks q)" using max0 by auto
  show ?thesis
    using chk len0
    by (auto simp add: parse_bounds_def b pmin pmax)
qed

lemma chars_text_cases:
  assumes it: "set_iteration iter"
    and sub: "possible_characters q \<subseteq> all_character_set"
    and ne: "negated q \<or> possible_characters q \<noteq> {}"
  obtains (none) "chars_text iter q = []" "\<not> negated q"
      "possible_characters q = all_character_set" "\<not> (min_blanks q = 1 \<and> max_blanks q = 1)"
    | (excluded) ex where "chars_text iter q = CHR ''^'' # ex" "negated q"
      "set ex = all_character_set - possible_characters q"
    | (listed) "chars_text iter q \<noteq> []" "\<not> negated q"
      "set (chars_text iter q) = possible_characters q"
proof (cases "negated q")
  case True
  show ?thesis
  proof (rule excluded)
    show "chars_text iter q = CHR ''^'' # iter (all_character_set - possible_characters q)"
      using True by (simp add: chars_text_def)
    show "negated q" by fact
    show "set (iter (all_character_set - possible_characters q))
        = all_character_set - possible_characters q"
      using it by (simp add: set_iteration_def)
  qed
next
  case False
  with ne have nonempty: "possible_characters q \<noteq> {}" by simp
  show ?thesis
  proof (cases "possible_characters q = all_character_set")
    case all: True
    show ?thesis
    proof (cases "min_blanks q = 1 \<and> max_blanks q = 1")
      case True
      show ?thesis
      proof (rule listed)
        show "chars_text iter q \<noteq> []"
          using False all True by (simp add: chars_text_def ascii_lowercase_def)
        show "\<not> negated q" by fact
        show "set (chars_text iter q) = possible_characters q"
          using False all True by (simp add: chars_text_def all_character_set_def)
      qed
    next
      case F: False
      show ?thesis
      proof (rule none)
        show "chars_text iter q = []" using False all F by (auto simp add: chars_text_def)
      qed (use False all F in auto)
    qed
  next
    case notall: False
    have t: "chars_text iter q = sorted_list_of_set (possible_characters q)"
      using False notall by (simp add: chars_text_def)
    show ?thesis
    proof (rule listed)
      show "set (chars_text iter q) = possible_characters q" by (simp add: t)
      then show "chars_text iter q \<noteq> []" using nonempty by auto
      show "\<not> negated q" by fact
    qed
  qed
qed

lemma parse_chars_text:
  assumes it: "set_iteration iter"
    and sub: "possible_characters q \<subseteq> all_character_set"
    and ne: "negated q \<or> possible_characters q \<noteq> {}"
  shows "\<exists>q'. parse_chars string (pre @ chars_text iter q) a b (length pre) = Inr (Some q')
     \<and> possible_characters q' = possible_characters q
     \<and> min_blanks q' = a \<and> max_blanks q' = b \<and> negated q' = negated q"
  using it sub ne
proof (cases rule: chars_text_cases)
  case none
  then show ?thesis
    by (simp add: parse_chars_def BlankSpace_init_fields BlankSpace_init_chars)
next
  case (excluded ex)
  have letters: "\<And>c. c \<in> set ex \<Longrightarrow> is_letter c"
    using excluded(3) by (auto simp add: all_character_set_iff)
  have chars_back: "all_character_set - set ex = possible_characters q"
    using excluded(3) sub by auto
  show ?thesis
  proof (cases ex)
    case Nil
    with excluded chars_back show ?thesis
      by (simp add: parse_chars_def BlankSpace_init_fields BlankSpace_init_chars)
  next
    case (Cons e es)
    let ?res = "BlankSpace_init True True a b (Str [])"
    have "letters_loop string ex ?res (Suc (length pre))
        = Inr (?res\<lparr>possible_characters :=
              (if negated ?res then possible_characters ?res - set ex
               else possible_characters ?res \<union> set ex)\<rparr>)"
      by (rule letters_loop_letters) (rule letters)
    then have "letters_loop string ex ?res (Suc (length pre))
        = Inr (?res\<lparr>possible_characters := possible_characters q\<rparr>)"
      using chars_back by (simp add: BlankSpace_init_fields BlankSpace_init_chars)
    with excluded Cons show ?thesis
      by (simp add: parse_chars_def BlankSpace_init_fields)
  qed
next
  case listed
  let ?ls = "chars_text iter q"
  have letters: "\<And>c. c \<in> set ?ls \<Longrightarrow> is_letter c"
    using listed(3) sub by (auto simp add: all_character_set_iff)
  obtain l ls where l: "?ls = l # ls" using listed(1) by (cases ?ls) auto
  have "is_letter l" using letters l by simp
  then have nl: "l \<noteq> CHR ''^''" "l \<noteq> CHR ''!''" by (auto simp add: is_letter_def)
  let ?res = "BlankSpace_init True False a b (Str [])"
  have "letters_loop string ?ls ?res (length pre)
      = Inr (?res\<lparr>possible_characters :=
            (if negated ?res then possible_characters ?res - set ?ls
             else possible_characters ?res \<union> set ?ls)\<rparr>)"
    by (rule letters_loop_letters) (rule letters)
  then have "letters_loop string ?ls ?res (length pre)
      = Inr (?res\<lparr>possible_characters := possible_characters q\<rparr>)"
    using listed(3) by (simp add: BlankSpace_init_fields BlankSpace_init_chars)
  with listed(2) l nl show ?thesis
    by (simp add: parse_chars_def BlankSpace_init_fields)
qed

lemma bounds_text_chars:
  assumes "0 \<le> min_blanks q" and "max_blanks q = - 1 \<or> min_blanks q \<le> max_blanks q"
    and "c \<in> set (bounds_text q)"
  shows "is_digit c \<or> c = CHR '',''"
proof -
  from assms(1,2) have "max_blanks q = - 1 \<or> 0 \<le> max_blanks q" by auto
  with assms show ?thesis
    by (auto simp add: bounds_text_def decimal_nonneg dest: digits_of_digits split: if_splits)
qed

lemma lower_id: "(\<And>c. c \<in> set s \<Longrightarrow> lower_char c = c) \<Longrightarrow> lower s = s"
  by (simp add: lower_def map_idI)

lemma letters_loop_Inr_letters:
  "letters_loop string ls res i = Inr r \<Longrightarrow> c \<in> set ls \<Longrightarrow> is_letter c"
  by (induction ls arbitrary: res i) (auto split: if_splits)

lemma all_character_set_not_empty: "all_character_set \<noteq> {}"
  by (simp add: all_character_set_def ascii_lowercase_def)

lemma letters_loop_result:
  assumes ll: "letters_loop string ls (BlankSpace_init True neg a b (Str [])) i = Inr q"
    and ne: "ls \<noteq> []"
  shows "possible_characters q \<subseteq> all_character_set
     \<and> (negated q \<or> possible_characters q \<noteq> {})"
proof -
  let ?res = "BlankSpace_init True neg a b (Str [])"
  have letters: "\<And>c. c \<in> set ls \<Longrightarrow> is_letter c"
    using ll by (rule letters_loop_Inr_letters)
  have "letters_loop string ls ?res i
      = Inr (?res\<lparr>possible_characters :=
            (if negated ?res then possible_characters ?res - set ls
             else possible_characters ?res \<union> set ls)\<rparr>)"
    by (rule letters_loop_letters) (rule letters)
  with ll have "q = ?res\<lparr>possible_characters :=
            (if negated ?res then possible_characters ?res - set ls
             else possible_characters ?res \<union> set ls)\<rparr>"
    by simp
  then have q: "possible_characters q = (if neg then all_character_set - set ls else set ls)"
      "negated q = neg"
    by (simp_all add: BlankSpace_init_fields BlankSpace_init_chars)
  have "set ls \<noteq> {}" using ne by simp
  moreover have "set ls \<subseteq> all_character_set"
    using letters by (auto simp add: all_character_set_iff)
  ultimately show ?thesis
    using q by auto
qed

lemma parse_chars_canonical:
  assumes "parse_chars string unknown minlen maxlen index = Inr (Some q)"
  shows "possible_characters q \<subseteq> all_character_set
     \<and> (negated q \<or> possible_characters q \<noteq> {})"
proof (cases "index < length unknown")
  case False
  with assms show ?thesis
    using all_character_set_not_empty
    by (auto simp add: parse_chars_def BlankSpace_init_fields BlankSpace_init_chars)
next
  case True
  show ?thesis
  proof (cases "unknown ! index \<in> set ''^!''")
    case neg: True
    show ?thesis
    proof (cases "Suc index < length unknown")
      case False
      with assms True neg show ?thesis
        by (auto simp add: parse_chars_def Let_def BlankSpace_init_fields BlankSpace_init_chars)
    next
      case i1: True
      with assms True neg
      have "letters_loop string (drop (Suc index) unknown)
          (BlankSpace_init True True minlen maxlen (Str [])) (Suc index) = Inr q"
        by (auto simp add: parse_chars_def Let_def split: sum.splits)
      then show ?thesis using i1 by (intro letters_loop_result) auto
    qed
  next
    case pos: False
    with assms True
    have "letters_loop string (drop index unknown)
        (BlankSpace_init True False minlen maxlen (Str [])) index = Inr q"
      by (auto simp add: parse_chars_def Let_def split: sum.splits)
    then show ?thesis using True by (intro letters_loop_result) auto
  qed
qed

text \<open>
  What the parser returns is in canonical form; moreover it allows some character unless it
  is negated, and it is bracketed unless its bounds are 1 and 1.
\<close>

lemma parse_blank_space_form:
  assumes "parse_blank_space s = Inr (Some q)"
  shows "canonical q \<and> (negated q \<or> possible_characters q \<noteq> {})
     \<and> (bracketed q \<or> (min_blanks q = 1 \<and> max_blanks q = 1))"
proof -
  from assms obtain string where s: "s = Some string" "string \<noteq> []"
    by (cases s) (auto simp add: parse_blank_space_def split: if_splits)
  have b: "0 \<le> min_blanks q \<and> (max_blanks q = - 1 \<or> min_blanks q \<le> max_blanks q)"
    using assms by (rule parse_blank_space_bounds)
  show ?thesis
  proof (cases "length (lower string) = 1")
    case True
    then obtain c where c: "lower string = [c]"
      by (cases "lower string") auto
    with assms s True show ?thesis
      using all_character_set_not_empty
      by (auto simp add: parse_blank_space_def Let_def canonical_def BlankSpace_init_fields
          BlankSpace_init_chars all_character_set_iff split: if_splits)
  next
    case False
    with assms s obtain minlen maxlen index where
      pc: "parse_chars string (slice (lower string) (Some 1) (Some (- 1))) minlen maxlen index
            = Inr (Some q)"
      by (auto simp add: parse_blank_space_def Let_def split: if_splits sum.splits)
    from parse_chars_canonical [OF pc] parse_chars_fields [OF pc] b show ?thesis
      by (simp add: canonical_def)
  qed
qed

text \<open>The number of digits of a power of ten, and \<open>str\<close> beyond the limit.\<close>

lemma digits_of_times_10:
  "0 < n \<Longrightarrow> length (digits_of (n * 10)) = Suc (length (digits_of n))"
  by (subst digits_of.simps) simp

lemma digits_of_power_10: "length (digits_of (10 ^ k)) = Suc k"
proof (induction k)
  case 0
  show ?case by (subst digits_of.simps) simp
next
  case (Suc k)
  have "length (digits_of (10 ^ k * 10)) = Suc (length (digits_of (10 ^ k)))"
    by (rule digits_of_times_10) simp
  with Suc show ?case by (simp add: mult.commute)
qed

lemma repr_beyond_limit:
  "repr iter (BlankSpace_init True False 0 (10 ^ int_max_str_digits) (Str ''ab''))
     = Inl (ValueError ''Exceeds the limit (4300 digits) for integer string conversion; use sys.set_int_max_str_digits() to increase the limit'')"
proof -
  let ?m = "10 ^ int_max_str_digits :: int"
  have n: "nat \<bar>?m\<bar> = 10 ^ int_max_str_digits"
    by (simp add: nat_power_eq)
  have "int_max_str_digits < length (digits_of (nat \<bar>?m\<bar>))"
    by (simp only: n digits_of_power_10 lessI)
  then have s: "str_int ?m
      = Inl (ValueError ''Exceeds the limit (4300 digits) for integer string conversion; use sys.set_int_max_str_digits() to increase the limit'')"
    by (simp only: str_int_def if_True)
  have "0 < int_max_str_digits" by (simp add: int_max_str_digits_def)
  then have "1 < ?m" by (intro one_less_power) simp_all
  then have m: "(?m = 0) = False" "(?m = 1) = False" "(?m = - 1) = False" "(0 = ?m) = False"
    by auto
  define q where "q = BlankSpace_init True False 0 ?m (Str ''ab'')"
  have f: "min_blanks q = 0" "max_blanks q = ?m" "bracketed q" "\<not> negated q"
    by (simp_all add: q_def BlankSpace_init_fields)
  have "repr iter q = Inl (ValueError ''Exceeds the limit (4300 digits) for integer string conversion; use sys.set_int_max_str_digits() to increase the limit'')"
    unfolding repr_def Let_def by (simp only: f m s if_True if_False simp_thms sum.case)
  then show ?thesis by (simp only: q_def)
qed

text \<open>
  C9. The claim: a class in canonical form, printed and parsed again, comes back with the
  same characters, bounds and negation. It fails on classes that keep every invariant of
  the spec. \<open>clone_minus\<close>, which the search calls on every class of a parsed pattern,
  turns the class parsed from the letter \<open>c\<close> into an unbracketed class with bounds 0 and 0;
  this prints as the bare letter \<open>c\<close>, which parses to bounds 1 and 1. A bracketed class
  that allows no character prints as \<open>[]\<close>, which the parser refuses. A class whose
  maximum has more digits than \<open>str\<close> prints has no text: \<open>repr\<close> raises.
\<close>

theorem C9_round_trip_counterexample:
  "clone_minus (BlankSpace_init False False 1 1 (Str ''c'')) 1 None
     = Inr (BlankSpace_init False False 0 0 (Str ''c''))
   \<and> canonical (BlankSpace_init False False 0 0 (Str ''c''))
   \<and> repr sorted_list_of_set (BlankSpace_init False False 0 0 (Str ''c'')) = Inr ''c''
   \<and> parse_blank_space (Some ''c'') = Inr (Some (BlankSpace_init False False 1 1 (Str ''c'')))
   \<and> min_blanks (BlankSpace_init False False 1 1 (Str ''c''))
       \<noteq> min_blanks (BlankSpace_init False False 0 0 (Str ''c''))
   \<and> canonical (BlankSpace_init True False 1 1 (Str []))
   \<and> repr sorted_list_of_set (BlankSpace_init True False 1 1 (Str [])) = Inr ''[]''
   \<and> parse_blank_space (Some ''[]'')
       = Inl (ParseError ''BlankSpace'' ''[]'' ''Missing characters inside bracket'' 1)
   \<and> canonical (BlankSpace_init True False 0 (10 ^ int_max_str_digits) (Str ''ab''))
   \<and> repr sorted_list_of_set (BlankSpace_init True False 0 (10 ^ int_max_str_digits) (Str ''ab''))
       = Inl (ValueError ''Exceeds the limit (4300 digits) for integer string conversion; use sys.set_int_max_str_digits() to increase the limit'')"
proof -
  have "canonical (BlankSpace_init True False 0 (10 ^ int_max_str_digits) (Str ''ab''))"
    by (simp add: canonical_def BlankSpace_init_fields BlankSpace_init_chars
        all_character_set_iff is_letter_def)
  moreover note repr_beyond_limit [of sorted_list_of_set]
  moreover have "clone_minus (BlankSpace_init False False 1 1 (Str ''c'')) 1 None
      = Inr (BlankSpace_init False False 0 0 (Str ''c''))"
    by (simp add: clone_minus_def is_empty_def BlankSpace_init_def append_chars_def
        add_chars_def Let_def)
  moreover have "canonical (BlankSpace_init False False 0 0 (Str ''c''))"
    "canonical (BlankSpace_init True False 1 1 (Str []))"
    by (simp_all add: canonical_def BlankSpace_init_fields BlankSpace_init_chars
        all_character_set_iff is_letter_def)
  moreover have "repr sorted_list_of_set (BlankSpace_init False False 0 0 (Str ''c'')) = Inr ''c''"
    by (simp add: repr_def BlankSpace_init_fields BlankSpace_init_chars)
  moreover have "repr sorted_list_of_set (BlankSpace_init True False 1 1 (Str [])) = Inr ''[]''"
    by (simp add: repr_def is_all_chars_def BlankSpace_init_fields BlankSpace_init_chars
        all_character_set_not_empty [symmetric])
  moreover have "parse_blank_space (Some ''c'')
      = Inr (Some (BlankSpace_init False False 1 1 (Str ''c'')))"
    by code_simp
  moreover have "parse_blank_space (Some ''[]'')
      = Inl (ParseError ''BlankSpace'' ''[]'' ''Missing characters inside bracket'' 1)"
    by code_simp
  ultimately show ?thesis by (simp add: BlankSpace_init_fields)
qed

text \<open>
  C9, as amended. Let a class be in canonical form, allow some character unless it is
  negated, have bounds 1 and 1 whenever it is unbracketed, not negated and allows one
  character or all 26, and have bounds of no more digits than \<open>str\<close> prints. Then, whatever
  the order in which sets are visited, \<open>repr\<close> returns a text, and \<open>parse_blank_space\<close>
  parses this text to a class with the same characters, the same \<open>min_blanks\<close> and
  \<open>max_blanks\<close>, and the same \<open>negated\<close>.
\<close>

theorem C9_round_trip:
  assumes it: "set_iteration iter" and can: "canonical q"
    and ne: "negated q \<or> possible_characters q \<noteq> {}"
    and bare: "bracketed q \<or> negated q
         \<or> (card (possible_characters q) \<noteq> 1 \<and> card (possible_characters q) \<noteq> 26)
         \<or> (min_blanks q = 1 \<and> max_blanks q = 1)"
    and pmn: "printable (min_blanks q)" and pmx: "printable (max_blanks q)"
  shows "\<exists>rendered q'. repr iter q = Inr rendered
     \<and> parse_blank_space (Some rendered) = Inr (Some q')
     \<and> possible_characters q' = possible_characters q
     \<and> min_blanks q' = min_blanks q \<and> max_blanks q' = max_blanks q
     \<and> negated q' = negated q"
proof -
  from can have min0: "0 \<le> min_blanks q"
    and max0: "max_blanks q = - 1 \<or> min_blanks q \<le> max_blanks q"
    and sub: "possible_characters q \<subseteq> all_character_set"
    by (simp_all add: canonical_def)
  consider (letter) "\<not> bracketed q" "\<not> negated q" "card (possible_characters q) = 1"
    | (any) "\<not> bracketed q" "\<not> negated q" "card (possible_characters q) = 26"
    | (bracket) "bracketed q \<or> negated q
         \<or> (card (possible_characters q) \<noteq> 1 \<and> card (possible_characters q) \<noteq> 26)"
    by auto
  then show ?thesis
  proof cases
    case letter
    from letter(3) obtain x where x: "possible_characters q = {x}"
      by (auto simp add: card_1_singleton_iff)
    with sub have lx: "is_letter x" by (simp add: all_character_set_iff)
    then have "x \<noteq> CHR ''_''" by (auto simp add: is_letter_def)
    moreover have "repr iter q = Inr [x]"
      using letter x by (simp add: repr_def set_iteration_single [OF it])
    moreover have "lower [x] = [x]" using lx by (simp add: lower_def lower_char_id)
    ultimately show ?thesis
      using lx x letter bare
      by (simp add: parse_blank_space_def BlankSpace_init_fields BlankSpace_init_chars)
  next
    case any
    have "possible_characters q = all_character_set"
      using sub any(3) by (intro card_subset_eq) (simp_all add: card_all_character_set)
    moreover have "repr iter q = Inr ''_''" using any by (simp add: repr_def)
    moreover have "lower ''_'' = ''_''" by (simp add: lower_def lower_char_def)
    ultimately show ?thesis
      using any bare
      by (simp add: parse_blank_space_def BlankSpace_init_fields BlankSpace_init_chars)
  next
    case bracket
    let ?b = "bounds_text q"
    let ?c = "chars_text iter q"
    let ?body = "?b @ ?c"
    let ?s = "CHR ''['' # ?b @ ?c @ '']''"
    have r: "repr iter q = Inr ?s" using repr_bracket [OF bracket pmn pmx] by simp
    have ctext: "\<And>c. c \<in> set ?c \<Longrightarrow> c = CHR ''^'' \<or> is_letter c"
      using it sub ne
      by (cases rule: chars_text_cases) (use sub in \<open>auto simp add: all_character_set_iff\<close>)
    have low: "lower ?s = ?s"
    proof (rule lower_id)
      fix c assume "c \<in> set ?s"
      then have "c = CHR ''['' \<or> c = CHR '']'' \<or> c \<in> set ?b \<or> c \<in> set ?c" by auto
      then show "lower_char c = c"
        using bounds_text_chars [OF min0 max0, of c] ctext [of c] lower_char_id [of c] by auto
    qed
    have hdc: "?c = [] \<or> (\<not> is_digit (hd ?c) \<and> hd ?c \<noteq> CHR '','')"
    proof (cases ?c)
      case Nil
      then show ?thesis by simp
    next
      case (Cons c cs)
      with ctext [of c] show ?thesis by (auto simp add: letter_nat digit_nat)
    qed
    have body: "?body \<noteq> []"
      using it sub ne by (cases rule: chars_text_cases) (auto simp add: bounds_text_def)
    have pb: "parse_bounds ?s CHR ''['' ?body = Inr (min_blanks q, max_blanks q, length ?b)"
      using parse_bounds_text [OF min0 max0 pmn pmx hdc body] .
    from parse_chars_text [OF it sub ne, of ?s ?b "min_blanks q" "max_blanks q"]
    obtain q' where pc: "parse_chars ?s ?body (min_blanks q) (max_blanks q) (length ?b) = Inr (Some q')"
      and q': "possible_characters q' = possible_characters q" "min_blanks q' = min_blanks q"
        "max_blanks q' = max_blanks q" "negated q' = negated q"
      by blast
    have sl: "slice ?s (Some 1) (Some (- 1)) = ?body"
      using slice_inner [of "CHR ''[''" ?body "CHR '']''"] by simp
    have "parse_blank_space (Some ?s) = Inr (Some q')"
      using body by (simp add: parse_blank_space_def low sl pb pc BRACKET_MATCHES_def Let_def)
    with r q' show ?thesis by simp
  qed
qed

theorem C9_round_trip_witness:
  "set_iteration sorted_list_of_set
   \<and> canonical (BlankSpace_init True True 3 5 (Str ''abc''))
   \<and> negated (BlankSpace_init True True 3 5 (Str ''abc''))
   \<and> bracketed (BlankSpace_init True True 3 5 (Str ''abc''))
   \<and> printable (min_blanks (BlankSpace_init True True 3 5 (Str ''abc'')))
   \<and> printable (max_blanks (BlankSpace_init True True 3 5 (Str ''abc'')))
   \<and> repr sorted_list_of_set (BlankSpace_init True True 3 5 (Str ''abc'')) = Inr ''[3,5^abc]''
   \<and> (\<exists>q'. parse_blank_space (Some ''[3,5^abc]'') = Inr (Some q')
        \<and> possible_characters q' = possible_characters (BlankSpace_init True True 3 5 (Str ''abc''))
        \<and> min_blanks q' = min_blanks (BlankSpace_init True True 3 5 (Str ''abc''))
        \<and> max_blanks q' = max_blanks (BlankSpace_init True True 3 5 (Str ''abc''))
        \<and> negated q' = negated (BlankSpace_init True True 3 5 (Str ''abc'')))"
proof -
  let ?q = "BlankSpace_init True True 3 5 (Str ''abc'')"
  have c: "canonical ?q"
    by (auto simp add: canonical_def BlankSpace_init_fields BlankSpace_init_chars)
  have n: "negated ?q \<or> possible_characters ?q \<noteq> {}"
    and b: "bracketed ?q \<or> negated ?q
       \<or> (card (possible_characters ?q) \<noteq> 1 \<and> card (possible_characters ?q) \<noteq> 26)
       \<or> (min_blanks ?q = 1 \<and> max_blanks ?q = 1)"
    by (simp_all add: BlankSpace_init_fields)
  have p: "printable (min_blanks ?q)" "printable (max_blanks ?q)"
    by code_simp+
  have r: "repr sorted_list_of_set ?q = Inr ''[3,5^abc]''"
    by code_simp
  show ?thesis
    using c r p set_iteration_sorted C9_round_trip [OF set_iteration_sorted c n b p]
    by (simp add: BlankSpace_init_fields)
qed

end
